theory Spec2Isabelle
  imports Main "HOL-Library.Word" "HOL-Library.Code_Target_Numeral"
begin

section \<open>Strings\<close>

text \<open>
  A JavaScript string is a sequence of UTF-16 code units; \<open>length\<close>, \<open>startsWith\<close>,
  \<open>slice\<close> and the regular expressions of \<^verbatim>\<open>src/index.ts\<close> (none has the \<open>u\<close> flag) all
  work on code units. \<open>js\<close> embeds an ASCII literal of the source.
\<close>

type_synonym jschar = "16 word"
type_synonym jsstring = "jschar list"

definition js :: "string \<Rightarrow> jsstring" where
  "js s = map (\<lambda>c. of_char c) s"

text \<open>\<^verbatim>\<open>s.startsWith(p)\<close>.\<close>

definition startsWith :: "jsstring \<Rightarrow> jsstring \<Rightarrow> bool" where
  "startsWith s p = (take (length p) s = p)"

text \<open>
  \<^verbatim>\<open>s.replace(/pat/g, rep)\<close> for a pattern \<open>pat\<close> of literal characters only: the
  occurrences are found from left to right, each search resuming after the previous match,
  and the replacement text is not searched again. Every pattern of the source is non-empty.
\<close>

function replaceAll :: "jsstring \<Rightarrow> jsstring \<Rightarrow> jsstring \<Rightarrow> jsstring" where
  "replaceAll pat rep [] = []"
| "replaceAll pat rep (c # cs) =
     (if pat \<noteq> [] \<and> startsWith (c # cs) pat
      then rep @ replaceAll pat rep (drop (length pat) (c # cs))
      else c # replaceAll pat rep cs)"
  by pat_completeness auto
termination
  by (relation "measure (\<lambda>(pat, rep, s). length s)") (auto simp: neq_Nil_conv)

section \<open>Entity decoding\<close>

text \<open>
  \<^verbatim>\<open>decodeHtmlEntities\<close> (lines 246-256): eight \<^verbatim>\<open>replace\<close> calls chained in this
  order, each one working on the output of the one before.
\<close>

definition decodeHtmlEntities :: "jsstring \<Rightarrow> jsstring" where
  "decodeHtmlEntities text =
     replaceAll (js ''&nbsp;'') (js '' '')
    (replaceAll (js ''&#x2F;'') (js ''/'')
    (replaceAll (js ''&#x27;'') (js [CHR 0x27])
    (replaceAll (js ''&#39;'') (js [CHR 0x27])
    (replaceAll (js ''&quot;'') (js ''\"'')
    (replaceAll (js ''&gt;'') (js ''>'')
    (replaceAll (js ''&lt;'') (js ''<'')
    (replaceAll (js ''&amp;'') (js ''&'') text)))))))"

text \<open>
  The supported entities, as (entity, literal character) pairs in the order of the chain.
\<close>

definition entity_table :: "(jsstring \<times> jsstring) list" where
  "entity_table =
    [(js ''&amp;'', js ''&''), (js ''&lt;'', js ''<''), (js ''&gt;'', js ''>''),
     (js ''&quot;'', js ''\"''), (js ''&#39;'', js [CHR 0x27]), (js ''&#x27;'', js [CHR 0x27]),
     (js ''&#x2F;'', js ''/''), (js ''&nbsp;'', js '' '')]"

text \<open>
  The double encoding of an entity \<open>&name;\<close> is \<open>&amp;name;\<close>: its ampersand is written
  as the entity \<open>&amp;\<close>.
\<close>

definition double_encoded :: "jsstring \<Rightarrow> jsstring" where
  "double_encoded entity = js ''&amp;'' @ tl entity"

section \<open>Numbers\<close>

text \<open>
  Decimal text of a natural number, as a template literal prints \<^verbatim>\<open>s.length\<close>.
\<close>

definition digit_char :: "nat \<Rightarrow> jschar" where
  "digit_char d = of_nat (48 + d)"

function show_nat :: "nat \<Rightarrow> jsstring" where
  "show_nat n = (if n < 10 then [digit_char n] else show_nat (n div 10) @ [digit_char (n mod 10)])"
  by pat_completeness auto
termination
  by (relation "measure id") auto

declare show_nat.simps [simp del]

text \<open>
  The white space that \<^verbatim>\<open>parseInt\<close> skips (and \<^verbatim>\<open>trim\<close> strips, and \<^verbatim>\<open>\s\<close>
  matches): the WhiteSpace and LineTerminator code units of ECMAScript.
\<close>

definition is_white_space :: "jschar \<Rightarrow> bool" where
  "is_white_space c \<longleftrightarrow>
     c \<in> {0x9, 0xA, 0xB, 0xC, 0xD, 0x20, 0xA0, 0x1680, 0x2028, 0x2029, 0x202F, 0x205F,
          0x3000, 0xFEFF} \<or> (0x2000 \<le> c \<and> c \<le> 0x200A)"

text \<open>The value of a code unit as a digit of the given radix, if it is one.\<close>

definition digit_val :: "nat \<Rightarrow> jschar \<Rightarrow> nat option" where
  "digit_val radix c =
     (let v = (if 0x30 \<le> c \<and> c \<le> 0x39 then Some (unat c - 0x30)
               else if 0x61 \<le> c \<and> c \<le> 0x7A then Some (unat c - 0x61 + 10)
               else if 0x41 \<le> c \<and> c \<le> 0x5A then Some (unat c - 0x41 + 10)
               else None)
      in case v of None \<Rightarrow> None | Some d \<Rightarrow> if d < radix then Some d else None)"

text \<open>
  \<^verbatim>\<open>parseInt(s)\<close> with no radix argument, after ECMAScript: leading white space is
  skipped, then one sign, then a \<open>0x\<close> or \<open>0X\<close> prefix (which selects radix 16, otherwise
  10); the longest run of digits is read and anything after it ignored; with no digit the
  result is \<open>NaN\<close>, here \<open>None\<close>. \<open>Some n\<close> is the integer read; the Number returned is the
  double nearest to it (\<open>to_double\<close> below). Rounding is monotone and keeps 200, so every
  comparison with 200 made below is the comparison of the doubles.
\<close>

definition parseInt :: "jsstring \<Rightarrow> int option" where
  "parseInt string =
     (let s0 = dropWhile is_white_space string;
          sign = (if s0 \<noteq> [] \<and> hd s0 = 0x2D then - 1 else 1 :: int);
          s1 = (if s0 \<noteq> [] \<and> (hd s0 = 0x2B \<or> hd s0 = 0x2D) then tl s0 else s0);
          hex = (2 \<le> length s1 \<and> (take 2 s1 = js ''0x'' \<or> take 2 s1 = js ''0X''));
          radix = (if hex then 16 else 10 :: nat);
          s2 = (if hex then drop 2 s1 else s1);
          z = takeWhile (\<lambda>c. digit_val radix c \<noteq> None) s2
      in if z = [] then None
         else Some (sign * int (foldl (\<lambda>a c. a * radix + the (digit_val radix c)) 0 z)))"

text \<open>\<^verbatim>\<open>x < k\<close> on Numbers: every comparison with \<open>NaN\<close> is false.\<close>

definition number_lt :: "int option \<Rightarrow> int \<Rightarrow> bool" where
  "number_lt x k = (case x of None \<Rightarrow> False | Some n \<Rightarrow> n < k)"

text \<open>
  The Number value of a natural number: the number itself below \<open>2^53\<close>, beyond that the
  nearest number with 53 significant bits, the even one of two that are equally near;
  \<open>None\<close> is \<open>Infinity\<close>.
\<close>

function bit_length :: "nat \<Rightarrow> nat" where
  "bit_length n = (if n = 0 then 0 else Suc (bit_length (n div 2)))"
  by pat_completeness auto
termination
  by (relation "measure id") auto

declare bit_length.simps [simp del]

definition to_double :: "nat \<Rightarrow> nat option" where
  "to_double m =
     (if m < 2 ^ 53 then Some m
      else
        (let e = bit_length m - 53;
             q = m div 2 ^ e;
             r = m mod 2 ^ e;
             q' = (if 2 * r > 2 ^ e \<or> (2 * r = 2 ^ e \<and> odd q) then q + 1 else q)
         in if q' * 2 ^ e \<ge> 2 ^ 1024 then None else Some (q' * 2 ^ e)))"

text \<open>
  The digits that \<^verbatim>\<open>Number.prototype.toString\<close> prints for a double \<open>x\<close> that is an integer:
  the number with the fewest significant digits that still rounds to \<open>x\<close>, the nearest to \<open>x\<close>
  of two such numbers, the one with the even last digit when both are equally near. The search
  goes from \<open>k\<close> significant digits upwards and ends at \<open>x\<close> itself.
\<close>

function shortest_digits :: "nat \<Rightarrow> nat \<Rightarrow> nat" where
  "shortest_digits x k =
     (let d = length (show_nat x);
          p = 10 ^ (d - k);
          lo = (x div p) * p;
          hi = lo + p
      in if d \<le> k then x
         else if to_double lo = Some x \<and> to_double hi = Some x then
                (if x - lo < hi - x then lo
                 else if hi - x < x - lo then hi
                 else if even (lo div p) then lo else hi)
         else if to_double lo = Some x then lo
         else if to_double hi = Some x then hi
         else shortest_digits x (k + 1))"
  by pat_completeness auto
termination
  by (relation "measure (\<lambda>(x, k). length (show_nat x) - k)") auto

declare shortest_digits.simps [simp del]

text \<open>
  A Number in a template literal, \<^verbatim>\<open>${w}\<close>: \<open>NaN\<close>, \<open>Infinity\<close>, or the digits above, written
  out when there are at most 21 of them and in the form \<open>d.ddde+n\<close> otherwise. Zero prints without
  a sign.
\<close>

definition show_double :: "nat \<Rightarrow> jsstring" where
  "show_double m =
     (case to_double m of
        None \<Rightarrow> js ''Infinity''
      | Some x \<Rightarrow>
          (let digits = show_nat (shortest_digits x 1);
               n = length digits;
               s = rev (dropWhile (\<lambda>c. c = 0x30) (rev digits))
           in if n \<le> 21 then digits
              else (if length s = 1 then s else hd s # js ''.'' @ tl s)
                   @ js ''e+'' @ show_nat (n - 1)))"

definition show_number :: "int option \<Rightarrow> jsstring" where
  "show_number x =
     (case x of
        None \<Rightarrow> js ''NaN''
      | Some n \<Rightarrow> if n < 0 then js ''-'' @ show_double (nat (- n)) else show_double (nat n))"

section \<open>Data model\<close>

text \<open>
  \<^verbatim>\<open>OgTags\<close>: an object whose properties are strings. A missing key reads as
  \<^verbatim>\<open>undefined\<close>, here \<open>None\<close>. \<open>truthy\<close> is the test \<^verbatim>\<open>if (tags[k])\<close>: the value is
  there and is not the empty string; \<open>or_else v d\<close> is \<^verbatim>\<open>v || d\<close>.
\<close>

type_synonym OgTags = "jsstring \<rightharpoonup> jsstring"

definition truthy :: "jsstring option \<Rightarrow> bool" where
  "truthy v = (case v of None \<Rightarrow> False | Some s \<Rightarrow> s \<noteq> [])"

definition or_else :: "jsstring option \<Rightarrow> jsstring \<Rightarrow> jsstring" where
  "or_else v d = (case v of None \<Rightarrow> d | Some s \<Rightarrow> if s \<noteq> [] then s else d)"

datatype severity = Error | Warning | Info

record OgIssue =
  tag :: jsstring
  problem :: jsstring
  fix' :: jsstring
  severity :: severity

text \<open>
  The WHATWG \<^verbatim>\<open>URL\<close> class of the platform is not code of this repository: it is a
  parameter of the model. \<open>newURL input base\<close> is \<^verbatim>\<open>new URL(input, base)\<close> (or
  \<^verbatim>\<open>new URL(input)\<close> when \<open>base\<close> is \<open>None\<close>); it is \<open>None\<close> where the constructor throws
  its \<^verbatim>\<open>TypeError\<close>. \<open>href\<close> is what \<^verbatim>\<open>toString()\<close> returns.
\<close>

record URL =
  href :: jsstring
  protocol :: jsstring
  hostname :: jsstring
  port :: jsstring
  pathname :: jsstring
  search :: jsstring

type_synonym url_api = "jsstring \<Rightarrow> jsstring option \<Rightarrow> URL option"

datatype error =
    InvalidURL
  | TypeError jsstring
  | TooManyRedirects
  | RequestTimedOut
  | RequestError jsstring

text \<open>\<^verbatim>\<open>err.message\<close>.\<close>

fun message :: "error \<Rightarrow> jsstring" where
  "message InvalidURL = js ''Invalid URL''"
| "message (TypeError m) = m"
| "message TooManyRedirects = js ''Too many redirects''"
| "message RequestTimedOut = js ''Request timed out''"
| "message (RequestError m) = m"

text \<open>
  \<^verbatim>\<open>obj[k] = v\<close> on an object created by \<^verbatim>\<open>{}\<close>, for a string or boolean \<open>v\<close>: the key
  \<^verbatim>\<open>__proto__\<close> is the accessor of \<^verbatim>\<open>Object.prototype\<close>, whose setter ignores such a
  value; every other key becomes a property of the object. The program reads only keys that
  \<^verbatim>\<open>Object.prototype\<close> does not have, so a read is a lookup in the map.
\<close>

definition set_prop :: "(jsstring \<rightharpoonup> 'v) \<Rightarrow> jsstring \<Rightarrow> 'v \<Rightarrow> (jsstring \<rightharpoonup> 'v)" where
  "set_prop obj k v = (if k = js ''__proto__'' then obj else obj(k \<mapsto> v))"

text \<open>
  What the network answers to one request: a response (status code, headers as Node's
  \<^verbatim>\<open>res.headers\<close> has them, and the whole body), an \<^verbatim>\<open>error\<close> event with its message,
  or a \<^verbatim>\<open>timeout\<close> event. A status code of 0 stands for an undefined one, which the code
  treats the same.
\<close>

datatype header_value = Single jsstring | Multi "jsstring list"

datatype net_event =
    Response nat "(jsstring \<times> header_value) list" jsstring
  | ReqError jsstring
  | ReqTimeout

text \<open>
  A request whose redirect was followed (lines 155-160) is neither read nor destroyed, and its
  \<^verbatim>\<open>error\<close> and \<^verbatim>\<open>timeout\<close> handlers (lines 180-184) stay on the one promise of the fetch.
  One of them may fire while a later request is pending, before anything else settles the
  promise, and then it rejects the fetch.
\<close>

datatype late = LateTimeout | LateError jsstring

fun late_error :: "late \<Rightarrow> error" where
  "late_error LateTimeout = RequestTimedOut"
| "late_error (LateError m) = RequestError m"

text \<open>
  The platform the program runs on, a parameter of the model: the \<^verbatim>\<open>URL\<close> class, the
  network (the answer to the request made for a parsed URL with a timeout, which may depend on
  how many redirects came before), the late events and \<^verbatim>\<open>String.prototype.toLowerCase\<close>.
  \<open>late_event P hop u timeout\<close> is read once the request for \<open>u\<close>, made after \<open>hop\<close>
  redirects, has been redirected: it is the event of a request redirected so far that settles
  the promise while the next request is pending, if there is one. A request that Node
  refuses to make (a timeout that is not a finite number \<open>\<ge> 0\<close>) throws in the first call of
  \<^verbatim>\<open>doFetch\<close>, which rejects the promise as an \<^verbatim>\<open>error\<close> event does.
\<close>

record platform =
  url_class :: url_api
  http_request :: "nat \<Rightarrow> URL \<Rightarrow> int option \<Rightarrow> net_event"
  late_event :: "nat \<Rightarrow> URL \<Rightarrow> int option \<Rightarrow> late option"
  to_lower :: "jsstring \<Rightarrow> jsstring"

text \<open>
  How a promise ends: resolved, rejected, or never settled because an exception thrown
  inside an event callback ended the process.
\<close>

datatype 'a outcome = Resolved 'a | Rejected error | Crashed error

section \<open>Regular expressions\<close>

text \<open>
  The regular expressions of \<^verbatim>\<open>parseHtml\<close> use literal characters, character classes, the
  quantifiers \<open>*\<close>, \<open>+\<close>, \<open>?\<close> and \<open>+?\<close>, alternation and one capture group each; all have
  the flag \<open>i\<close>. \<open>Star True\<close> is the greedy star, \<open>Star False\<close> the lazy one; \<open>Group\<close> is the
  capture group 1. No group of the source is inside a quantifier.
\<close>

datatype regex =
    Eps
  | Atom "jschar \<Rightarrow> bool"
  | Seq regex regex
  | Alt regex regex
  | Star bool regex
  | Group regex

text \<open>
  The backtracking matcher of ECMAScript, as the list of its successes in the order in
  which backtracking tries them: \<open>ms r s cap\<close> gives, for each way \<open>r\<close> matches a prefix of
  \<open>s\<close>, the rest of the input and the capture. The match the engine reports is the first
  element. An iteration of a star that consumes nothing is rejected, as in the standard.
\<close>

type_synonym match_state = "jsstring \<times> jsstring option"

function ms :: "regex \<Rightarrow> jsstring \<Rightarrow> jsstring option \<Rightarrow> match_state list" where
  "ms Eps s cap = [(s, cap)]"
| "ms (Atom p) s cap = (case s of [] \<Rightarrow> [] | c # cs \<Rightarrow> if p c then [(cs, cap)] else [])"
| "ms (Seq a b) s cap = concat (map (\<lambda>(s', cap'). ms b s' cap') (ms a s cap))"
| "ms (Alt a b) s cap = ms a s cap @ ms b s cap"
| "ms (Star greedy a) s cap =
     (let more = concat (map (\<lambda>(s', cap').
                   if length s' < length s then ms (Star greedy a) s' cap' else [])
                 (ms a s cap))
      in if greedy then more @ [(s, cap)] else (s, cap) # more)"
| "ms (Group a) s cap =
     map (\<lambda>(s', cap'). (s', Some (take (length s - length s') s))) (ms a s cap)"
  by pat_completeness auto
termination
  by (relation "measures [\<lambda>(r, s, cap). size r, \<lambda>(r, s, cap). length s]") auto

declare ms.simps(5) [simp del]

text \<open>
  \<^verbatim>\<open>s.match(r)\<close> without the flag \<open>g\<close>, and one \<^verbatim>\<open>r.exec(s)\<close> on what is left of the
  input after \<^verbatim>\<open>lastIndex\<close>: the match is tried at each position from the left. The result
  is the index of the match, the input after it, and group 1 (\<open>None\<close> for \<^verbatim>\<open>undefined\<close>).
\<close>

fun find_match :: "regex \<Rightarrow> jsstring \<Rightarrow> (nat \<times> jsstring \<times> jsstring option) option" where
  "find_match r [] = (case ms r [] None of [] \<Rightarrow> None | (s', cap) # _ \<Rightarrow> Some (0, s', cap))"
| "find_match r (c # cs) =
     (case ms r (c # cs) None of
        (s', cap) # _ \<Rightarrow> Some (0, s', cap)
      | [] \<Rightarrow> map_option (\<lambda>(k, s', cap). (Suc k, s', cap)) (find_match r cs))"

text \<open>
  Literal characters under the flag \<open>i\<close>: two code units match when they have the same upper
  case, and a code unit outside ASCII never matches an ASCII one.
\<close>

definition to_upper_ascii :: "jschar \<Rightarrow> jschar" where
  "to_upper_ascii x = (if 0x61 \<le> x \<and> x \<le> 0x7A then x - 0x20 else x)"

definition ci_match :: "char \<Rightarrow> jschar \<Rightarrow> bool" where
  "ci_match c x = (to_upper_ascii x = to_upper_ascii (of_char c))"

definition lit :: "string \<Rightarrow> regex" where
  "lit cs = foldr (\<lambda>c r. Seq (Atom (ci_match c)) r) cs Eps"

definition seq :: "regex list \<Rightarrow> regex" where
  "seq rs = foldr Seq rs Eps"

text \<open>The classes \<^verbatim>\<open>[^...]\<close>, \<^verbatim>\<open>[...]\<close> and \<^verbatim>\<open>\s\<close>; the quantifiers \<open>+\<close>, \<open>+?\<close> and \<open>?\<close>.\<close>

definition not_in :: "string \<Rightarrow> regex" where
  "not_in cs = Atom (\<lambda>x. x \<notin> set (js cs))"

definition one_of :: "string \<Rightarrow> regex" where
  "one_of cs = Atom (\<lambda>x. x \<in> set (js cs))"

definition space :: regex where
  "space = Atom is_white_space"

definition Plus :: "regex \<Rightarrow> regex" where
  "Plus r = Seq r (Star True r)"

definition LazyPlus :: "regex \<Rightarrow> regex" where
  "LazyPlus r = Seq r (Star False r)"

definition Opt :: "regex \<Rightarrow> regex" where
  "Opt r = Alt r Eps"

text \<open>\<^verbatim>\<open>["']\<close> and \<^verbatim>\<open>[^"']\<close>.\<close>

definition quote :: regex where
  "quote = one_of [CHR 0x22, CHR 0x27]"

definition unquoted :: regex where
  "unquoted = not_in [CHR 0x22, CHR 0x27]"

text \<open>
  Line 197, \<^verbatim>\<open>/<title[^>]*>([^<]*)<\/title>/i\<close>; line 203,
  \<^verbatim>\<open>/<meta\s+([^>]+?)\/?>/gi\<close>; line 211, \<^verbatim>\<open>/(?:property|name)\s*=\s*["']([^"']+)["']/i\<close>;
  line 217, \<^verbatim>\<open>/content\s*=\s*["']([^"']*)["']/i\<close>.
\<close>

definition title_re :: regex where
  "title_re = seq [lit ''<title'', Star True (not_in ''>''), lit ''>'',
                   Group (Star True (not_in ''<'')), lit ''</title>'']"

definition meta_re :: regex where
  "meta_re = seq [lit ''<meta'', Plus space, Group (LazyPlus (not_in ''>'')), Opt (lit ''/''),
                  lit ''>'']"

definition prop_re :: regex where
  "prop_re = seq [Alt (lit ''property'') (lit ''name''), Star True space, lit ''='',
                  Star True space, quote, Group (Plus unquoted), quote]"

definition content_re :: regex where
  "content_re = seq [lit ''content'', Star True space, lit ''='', Star True space, quote,
                     Group (Star True unquoted), quote]"

text \<open>
  The five expressions of lines 224-238 have one shape,
  \<^verbatim>\<open><tag\s+[^>]*first[^>]*second[^>]*\/?>\<close>, where \<open>first\<close> and \<open>second\<close> are attributes
  \<^verbatim>\<open>name\s*=\s*["']...["']\<close>: one with a fixed value, the other with its value in the
  group \<^verbatim>\<open>([^"']*)\<close>.
\<close>

definition attr_is :: "string \<Rightarrow> regex \<Rightarrow> regex" where
  "attr_is name val =
     seq [lit name, Star True space, lit ''='', Star True space, quote, val, quote]"

definition attr_group :: "string \<Rightarrow> regex" where
  "attr_group name =
     seq [lit name, Star True space, lit ''='', Star True space, quote,
          Group (Star True unquoted), quote]"

definition tag_re :: "string \<Rightarrow> regex \<Rightarrow> regex \<Rightarrow> regex" where
  "tag_re name first second =
     seq [lit name, Plus space, Star True (not_in ''>''), first, Star True (not_in ''>''), second,
          Star True (not_in ''>''), Opt (lit ''/''), lit ''>'']"

definition desc_re1 :: regex where
  "desc_re1 = tag_re ''<meta'' (attr_is ''name'' (lit ''description'')) (attr_group ''content'')"

definition desc_re2 :: regex where
  "desc_re2 = tag_re ''<meta'' (attr_group ''content'') (attr_is ''name'' (lit ''description''))"

definition canonical_re1 :: regex where
  "canonical_re1 = tag_re ''<link'' (attr_is ''rel'' (lit ''canonical'')) (attr_group ''href'')"

definition canonical_re2 :: regex where
  "canonical_re2 = tag_re ''<link'' (attr_group ''href'') (attr_is ''rel'' (lit ''canonical''))"

definition favicon_re :: regex where
  "favicon_re = tag_re ''<link'' (attr_is ''rel'' (Alt (lit ''icon'') (lit ''shortcut icon'')))
                  (attr_group ''href'')"

subsection \<open>Matches make progress\<close>

text \<open>
  The loop of lines 206-221 calls \<^verbatim>\<open>exec\<close> until it finds nothing; it ends because every
  match of \<open>meta_re\<close> consumes input, which is shown here, before the loop is defined.
  \<open>consuming r\<close> is a sufficient condition read off the expression: every match of \<open>r\<close>
  goes through an atom.
\<close>

fun consuming :: "regex \<Rightarrow> bool" where
  "consuming Eps = False"
| "consuming (Atom p) = True"
| "consuming (Seq a b) = (consuming a \<or> consuming b)"
| "consuming (Alt a b) = (consuming a \<and> consuming b)"
| "consuming (Star greedy a) = False"
| "consuming (Group a) = consuming a"


lemma ms_length: "(s', c') \<in> set (ms r s cap) \<Longrightarrow> length s' \<le> length s"
proof (induction r s cap arbitrary: s' c' rule: ms.induct)
  case (1 s cap)
  then show ?case by simp
next
  case (2 p s cap)
  then show ?case by (auto split: list.splits if_splits)
next
  case (3 a b s cap)
  from "3.prems" obtain s1 c1 where
    m1: "(s1, c1) \<in> set (ms a s cap)" and m2: "(s', c') \<in> set (ms b s1 c1)"
    by auto
  from "3.IH"(1) [OF m1] "3.IH"(2) [OF m1 refl m2] show ?case by simp
next
  case (4 a b s cap)
  then show ?case by auto
next
  case (5 greedy a s cap)
  from "5.prems" have
    "(s', c') = (s, cap) \<or>
     (\<exists>s1 c1. (s1, c1) \<in> set (ms a s cap) \<and> length s1 < length s \<and>
        (s', c') \<in> set (ms (Star greedy a) s1 c1))"
    by (subst (asm) ms.simps(5)) (auto simp: Let_def split: if_splits)
  then show ?case
  proof
    assume "(s', c') = (s, cap)"
    then show ?thesis by simp
  next
    assume "\<exists>s1 c1. (s1, c1) \<in> set (ms a s cap) \<and> length s1 < length s \<and>
        (s', c') \<in> set (ms (Star greedy a) s1 c1)"
    then obtain s1 c1 where m1: "(s1, c1) \<in> set (ms a s cap)" and lt: "length s1 < length s"
      and m2: "(s', c') \<in> set (ms (Star greedy a) s1 c1)" by blast
    from "5.IH"(2) [OF m1 refl lt m2] lt show ?thesis by simp
  qed
next
  case (6 a s cap)
  then show ?case by auto
qed


lemma ms_consuming:
  "consuming r \<Longrightarrow> (s', c') \<in> set (ms r s cap) \<Longrightarrow> length s' < length s"
proof (induction r arbitrary: s cap s' c')
  case (Atom p)
  then show ?case by (auto split: list.splits if_splits)
next
  case (Seq a b)
  from Seq.prems(2) obtain s1 c1 where
    m1: "(s1, c1) \<in> set (ms a s cap)" and m2: "(s', c') \<in> set (ms b s1 c1)"
    by auto
  from Seq.prems(1) have "consuming a \<or> consuming b" by simp
  then show ?case
  proof
    assume "consuming a"
    from Seq.IH(1) [OF this m1] ms_length [OF m2] show ?thesis by simp
  next
    assume "consuming b"
    from Seq.IH(2) [OF this m2] ms_length [OF m1] show ?thesis by simp
  qed
next
  case (Alt a b)
  then show ?case by auto
next
  case (Group a)
  then show ?case by auto
qed simp_all


lemma find_match_Some:
  assumes "find_match r s = Some (k, s', cap)"
  shows "k \<le> length s \<and> (s', cap) \<in> set (ms r (drop k s) None)"
  using assms
proof (induction s arbitrary: k)
  case Nil
  then show ?case by (auto split: list.splits)
next
  case (Cons c cs)
  show ?case
  proof (cases "ms r (c # cs) None")
    case Nil
    with Cons.prems obtain k' where k: "k = Suc k'" and s: "find_match r cs = Some (k', s', cap)"
      by auto
    from Cons.IH [OF s] k show ?thesis by simp
  next
    case (Cons m rest)
    with Cons.prems show ?thesis by (cases m) auto
  qed
qed


lemma find_match_consuming:
  assumes "find_match r s = Some (k, s', cap)" and "consuming r"
  shows "length s' < length s"
proof -
  from find_match_Some [OF assms(1)] have
    k: "k \<le> length s" and m: "(s', cap) \<in> set (ms r (drop k s) None)" by simp_all
  from ms_consuming [OF assms(2) m] show ?thesis by simp
qed


lemma consuming_lit: "cs \<noteq> [] \<Longrightarrow> consuming (lit cs)"
  by (cases cs) (simp_all add: lit_def)

lemma meta_re_consuming: "consuming meta_re"
  by (simp add: meta_re_def seq_def consuming_lit)

section \<open>Extractor\<close>

text \<open>\<^verbatim>\<open>s.trim()\<close>.\<close>

definition trim :: "jsstring \<Rightarrow> jsstring" where
  "trim s = rev (dropWhile is_white_space (rev (dropWhile is_white_space s)))"

text \<open>Sequencing of steps that may throw.\<close>

definition then_step :: "error + 'a \<Rightarrow> ('a \<Rightarrow> error + 'b) \<Rightarrow> error + 'b" where
  "then_step r f = (case r of Inl e \<Rightarrow> Inl e | Inr x \<Rightarrow> f x)"

text \<open>
  A method call on group 1 of a match, \<^verbatim>\<open>m[1].method(...)\<close>: it throws a
  \<^verbatim>\<open>TypeError\<close> when the group is \<^verbatim>\<open>undefined\<close>.
\<close>

definition on_group :: "jsstring option \<Rightarrow> string \<Rightarrow> (jsstring \<Rightarrow> 'a) \<Rightarrow> error + 'a" where
  "on_group cap method f =
     (case cap of
        None \<Rightarrow> Inl (TypeError (js ''Cannot read properties of undefined (reading ''
                                  @ [0x27] @ js method @ [0x27] @ js '')''))
      | Some g \<Rightarrow> Inr (f g))"

text \<open>Lines 197-200.\<close>

definition parse_title :: "jsstring \<Rightarrow> OgTags \<Rightarrow> error + OgTags" where
  "parse_title html tags =
     (case find_match title_re html of
        None \<Rightarrow> Inr tags
      | Some (k, rest, cap) \<Rightarrow>
          on_group cap ''trim'' (\<lambda>g. set_prop tags (js ''title'') (decodeHtmlEntities (trim g))))"

text \<open>
  Lines 207-220, the body of the loop for the attribute text \<open>attrs\<close> of one
  \<^verbatim>\<open><meta>\<close> element.
\<close>

definition parse_meta :: "platform \<Rightarrow> jsstring \<Rightarrow> OgTags \<Rightarrow> error + OgTags" where
  "parse_meta P attrs tags =
     then_step
       (case find_match prop_re attrs of
          None \<Rightarrow> Inr []
        | Some (k, rest, cap) \<Rightarrow> on_group cap ''toLowerCase'' (to_lower P))
       (\<lambda>key.
          case find_match content_re attrs of
            None \<Rightarrow> Inr tags
          | Some (k, rest, cap) \<Rightarrow>
              if key \<noteq> [] then
                on_group cap ''replace'' (\<lambda>g. set_prop tags key (decodeHtmlEntities g))
              else Inr tags)"

text \<open>
  Lines 206-221, the loop: \<open>s\<close> is the input from \<^verbatim>\<open>lastIndex\<close> on, and the next
  \<^verbatim>\<open>exec\<close> resumes after the match.
\<close>

function parse_metas :: "platform \<Rightarrow> jsstring \<Rightarrow> OgTags \<Rightarrow> error + OgTags" where
  "parse_metas P s tags =
     (case find_match meta_re s of
        None \<Rightarrow> Inr tags
      | Some (k, rest, cap) \<Rightarrow>
          then_step (on_group cap ''match'' id)
            (\<lambda>attrs. then_step (parse_meta P attrs tags) (parse_metas P rest)))"
  by pat_completeness auto
termination
  by (relation "measure (\<lambda>(P, s, tags). length s)")
     (auto dest: find_match_consuming simp: meta_re_consuming)

declare parse_metas.simps [simp del]

text \<open>Lines 224-228: \<^verbatim>\<open>html.match(...) || html.match(...)\<close>.\<close>

definition match_either :: "regex \<Rightarrow> regex \<Rightarrow> jsstring \<Rightarrow> (nat \<times> jsstring \<times> jsstring option) option" where
  "match_either r1 r2 html =
     (case find_match r1 html of Some m \<Rightarrow> Some m | None \<Rightarrow> find_match r2 html)"

definition parse_description :: "jsstring \<Rightarrow> OgTags \<Rightarrow> error + OgTags" where
  "parse_description html tags =
     (case match_either desc_re1 desc_re2 html of
        None \<Rightarrow> Inr tags
      | Some (k, rest, cap) \<Rightarrow>
          on_group cap ''replace'' (\<lambda>g. set_prop tags (js ''description'') (decodeHtmlEntities g)))"

text \<open>
  Lines 231-241. The group is stored as it is, without a method call: an undefined group
  would be stored as \<^verbatim>\<open>undefined\<close> and read back as a missing value.
\<close>

definition parse_canonical :: "jsstring \<Rightarrow> OgTags \<Rightarrow> OgTags" where
  "parse_canonical html tags =
     (case match_either canonical_re1 canonical_re2 html of
        None \<Rightarrow> tags
      | Some (k, rest, cap) \<Rightarrow> tags(js ''canonical'' := cap))"

definition parse_favicon :: "jsstring \<Rightarrow> OgTags \<Rightarrow> OgTags" where
  "parse_favicon html tags =
     (case find_match favicon_re html of
        None \<Rightarrow> tags
      | Some (k, rest, cap) \<Rightarrow> tags(js ''favicon'' := cap))"

text \<open>\<^verbatim>\<open>parseHtml\<close> (lines 193-244).\<close>

definition parseHtml :: "platform \<Rightarrow> jsstring \<Rightarrow> error + OgTags" where
  "parseHtml P html =
     then_step (parse_title html Map.empty)
       (\<lambda>tags. then_step (parse_metas P html tags)
         (\<lambda>tags. then_step (parse_description html tags)
           (\<lambda>tags. Inr (parse_favicon html (parse_canonical html tags)))))"

section \<open>Validator\<close>

text \<open>
  \<^verbatim>\<open>validateTags\<close> (lines 258-419) is a sequence of \<^verbatim>\<open>if\<close> statements, each pushing at
  most one issue. Each statement is one definition here, giving the issues it pushes, and
  \<open>validateTags\<close> appends them in the order of the source.
\<close>

definition check_og_title :: "OgTags \<Rightarrow> OgIssue list" where
  "check_og_title tags =
     (if \<not> truthy (tags (js ''og:title'')) then
        [\<lparr>tag = js ''og:title'',
          problem = js ''Missing og:title. Social platforms won't show a proper title for your link.'',
          fix' = js ''<meta property=\"og:title\" content=\"''
                   @ or_else (tags (js ''title'')) (js ''Your Page Title'') @ js ''\" />'',
          severity = Error\<rparr>]
      else if length (the (tags (js ''og:title''))) > 95 then
        [\<lparr>tag = js ''og:title'',
          problem = js ''og:title is '' @ show_nat (length (the (tags (js ''og:title''))))
                   @ js '' chars. It'll get truncated on most platforms (keep under 60-95 chars).'',
          fix' = js ''Shorten your og:title to under 60 characters for best display.'',
          severity = Warning\<rparr>]
      else [])"

definition check_og_description :: "OgTags \<Rightarrow> OgIssue list" where
  "check_og_description tags =
     (if \<not> truthy (tags (js ''og:description'')) then
        [\<lparr>tag = js ''og:description'',
          problem = js ''Missing og:description. Your link preview won't have a description snippet.'',
          fix' = js ''<meta property=\"og:description\" content=\"''
                   @ or_else (tags (js ''description'')) (js ''A brief description of your page'')
                   @ js ''\" />'',
          severity = Error\<rparr>]
      else if length (the (tags (js ''og:description''))) > 300 then
        [\<lparr>tag = js ''og:description'',
          problem = js ''og:description is ''
                   @ show_nat (length (the (tags (js ''og:description''))))
                   @ js '' chars. Keep it under 200 for best display.'',
          fix' = js ''Shorten your og:description to under 200 characters.'',
          severity = Warning\<rparr>]
      else [])"

text \<open>
  Lines 303-310. The fix of the issue is built with \<^verbatim>\<open>new URL(tags['og:image'], url)\<close>,
  which throws on a reference it cannot resolve; nothing in \<^verbatim>\<open>validateTags\<close> catches it.
\<close>

definition check_image_absolute :: "url_api \<Rightarrow> jsstring \<Rightarrow> jsstring \<Rightarrow> error + OgIssue list" where
  "check_image_absolute newURL img url =
     (if \<not> startsWith img (js ''http'') then
        (case newURL img (Some url) of
           None \<Rightarrow> Inl InvalidURL
         | Some u \<Rightarrow>
             Inr [\<lparr>tag = js ''og:image'',
                   problem = js ''og:image should be an absolute URL (starting with https://). Relative URLs won't work.'',
                   fix' = js ''<meta property=\"og:image\" content=\"'' @ href u @ js ''\" />'',
                   severity = Error\<rparr>])
      else Inr [])"

text \<open>Lines 313-331.\<close>

definition check_image_dimensions :: "OgTags \<Rightarrow> OgIssue list" where
  "check_image_dimensions tags =
     (if \<not> truthy (tags (js ''og:image:width'')) \<or> \<not> truthy (tags (js ''og:image:height'')) then
        [\<lparr>tag = js ''og:image:width/height'',
          problem = js ''Missing og:image:width and og:image:height. Some platforms won't show the image without dimensions.'',
          fix' = js ''<meta property=\"og:image:width\" content=\"1200\" />'' @ [0xA]
                   @ js ''<meta property=\"og:image:height\" content=\"630\" />'',
          severity = Warning\<rparr>]
      else
        (let w = parseInt (the (tags (js ''og:image:width'')));
             h = parseInt (the (tags (js ''og:image:height'')))
         in if number_lt w 200 \<or> number_lt h 200 then
              [\<lparr>tag = js ''og:image'',
                problem = js ''Image is '' @ show_number w @ js ''x'' @ show_number h
                   @ js ''px. Most platforms need at least 200x200px. Facebook recommends 1200x630px.'',
                fix' = js ''Use an image that's at least 1200x630px for best results.'',
                severity = Warning\<rparr>]
            else []))"

text \<open>Lines 334-341.\<close>

definition check_image_alt :: "OgTags \<Rightarrow> OgIssue list" where
  "check_image_alt tags =
     (if \<not> truthy (tags (js ''og:image:alt'')) then
        [\<lparr>tag = js ''og:image:alt'',
          problem = js ''Missing og:image:alt. Add alt text for accessibility.'',
          fix' = js ''<meta property=\"og:image:alt\" content=\"Description of the image\" />'',
          severity = Info\<rparr>]
      else [])"

text \<open>Lines 294-342.\<close>

definition check_og_image :: "url_api \<Rightarrow> OgTags \<Rightarrow> jsstring \<Rightarrow> error + OgIssue list" where
  "check_og_image newURL tags url =
     (if \<not> truthy (tags (js ''og:image'')) then
        Inr [\<lparr>tag = js ''og:image'',
              problem = js ''Missing og:image. Your link will have no preview image on any platform.'',
              fix' = js ''<meta property=\"og:image\" content=\"https://yoursite.com/og-image.png\" />'',
              severity = Error\<rparr>]
      else
        (case check_image_absolute newURL (the (tags (js ''og:image''))) url of
           Inl e \<Rightarrow> Inl e
         | Inr absolute \<Rightarrow> Inr (absolute @ check_image_dimensions tags @ check_image_alt tags)))"

definition check_og_url :: "OgTags \<Rightarrow> jsstring \<Rightarrow> OgIssue list" where
  "check_og_url tags url =
     (if \<not> truthy (tags (js ''og:url'')) then
        [\<lparr>tag = js ''og:url'',
          problem = js ''Missing og:url. Platforms won't know the canonical URL for your page.'',
          fix' = js ''<meta property=\"og:url\" content=\"'' @ url @ js ''\" />'',
          severity = Warning\<rparr>]
      else [])"

definition check_og_type :: "OgTags \<Rightarrow> OgIssue list" where
  "check_og_type tags =
     (if \<not> truthy (tags (js ''og:type'')) then
        [\<lparr>tag = js ''og:type'',
          problem = js ''Missing og:type. Defaults to \"website\" but it's better to be explicit.'',
          fix' = js ''<meta property=\"og:type\" content=\"website\" />'',
          severity = Info\<rparr>]
      else [])"

definition check_twitter_card :: "OgTags \<Rightarrow> OgIssue list" where
  "check_twitter_card tags =
     (if \<not> truthy (tags (js ''twitter:card'')) then
        [\<lparr>tag = js ''twitter:card'',
          problem = js ''Missing twitter:card. Twitter won't show a rich preview without it.'',
          fix' = js ''<meta name=\"twitter:card\" content=\"summary_large_image\" />'',
          severity = Warning\<rparr>]
      else [])"

definition check_twitter_title :: "OgTags \<Rightarrow> OgIssue list" where
  "check_twitter_title tags =
     (if \<not> truthy (tags (js ''twitter:title'')) \<and> \<not> truthy (tags (js ''og:title'')) then
        [\<lparr>tag = js ''twitter:title'',
          problem = js ''No twitter:title or og:title. Twitter won't display a title.'',
          fix' = js ''<meta name=\"twitter:title\" content=\"Your Page Title\" />'',
          severity = Error\<rparr>]
      else [])"

definition check_twitter_image :: "OgTags \<Rightarrow> OgIssue list" where
  "check_twitter_image tags =
     (if \<not> truthy (tags (js ''twitter:image'')) \<and> \<not> truthy (tags (js ''og:image'')) then
        [\<lparr>tag = js ''twitter:image'',
          problem = js ''No twitter:image or og:image. Twitter preview will have no image.'',
          fix' = js ''<meta name=\"twitter:image\" content=\"https://yoursite.com/twitter-image.png\" />'',
          severity = Warning\<rparr>]
      else [])"

definition check_title :: "OgTags \<Rightarrow> OgIssue list" where
  "check_title tags =
     (if \<not> truthy (tags (js ''title'')) then
        [\<lparr>tag = js ''title'',
          problem = js ''Missing <title> tag. This affects SEO and browser tab display.'',
          fix' = js ''<title>Your Page Title</title>'',
          severity = Warning\<rparr>]
      else [])"

definition check_description :: "OgTags \<Rightarrow> OgIssue list" where
  "check_description tags =
     (if \<not> truthy (tags (js ''description'')) then
        [\<lparr>tag = js ''description'',
          problem = js ''Missing meta description. Search engines use this for search result snippets.'',
          fix' = js ''<meta name=\"description\" content=\"A brief description\" />'',
          severity = Info\<rparr>]
      else [])"

definition check_canonical :: "OgTags \<Rightarrow> jsstring \<Rightarrow> OgIssue list" where
  "check_canonical tags url =
     (if \<not> truthy (tags (js ''canonical'')) then
        [\<lparr>tag = js ''canonical'',
          problem = js ''Missing canonical URL. This helps prevent duplicate content issues.'',
          fix' = js ''<link rel=\"canonical\" href=\"'' @ url @ js ''\" />'',
          severity = Info\<rparr>]
      else [])"

text \<open>
  The whole function. The only exit other than the final \<^verbatim>\<open>return issues\<close> is the
  exception of \<open>check_image_absolute\<close>, which discards the issues collected so far.
\<close>

definition validateTags :: "url_api \<Rightarrow> OgTags \<Rightarrow> jsstring \<Rightarrow> error + OgIssue list" where
  "validateTags newURL tags url =
     (case check_og_image newURL tags url of
        Inl e \<Rightarrow> Inl e
      | Inr image_issues \<Rightarrow>
          Inr (check_og_title tags @ check_og_description tags @ image_issues
               @ check_og_url tags url @ check_og_type tags
               @ check_twitter_card tags @ check_twitter_title tags @ check_twitter_image tags
               @ check_title tags @ check_description tags @ check_canonical tags url))"

section \<open>Fetcher\<close>

text \<open>What \<^verbatim>\<open>fetchUrl\<close> resolves with.\<close>

record response =
  statusCode :: nat
  headers :: "jsstring \<rightharpoonup> jsstring"
  body :: jsstring
  finalUrl :: jsstring

text \<open>\<^verbatim>\<open>vs.join(sep)\<close>.\<close>

fun join :: "jsstring \<Rightarrow> jsstring list \<Rightarrow> jsstring" where
  "join sep [] = []"
| "join sep [x] = x"
| "join sep (x # y # ys) = x @ sep @ join sep (y # ys)"

text \<open>\<^verbatim>\<open>res.headers.location\<close>: Node keeps one value for this header.\<close>

definition header_location :: "(jsstring \<times> header_value) list \<Rightarrow> jsstring option" where
  "header_location hs =
     (case map_of hs (js ''location'') of Some (Single s) \<Rightarrow> Some s | _ \<Rightarrow> None)"

text \<open>Lines 167-170.\<close>

definition responseHeaders :: "platform \<Rightarrow> (jsstring \<times> header_value) list \<Rightarrow> (jsstring \<rightharpoonup> jsstring)" where
  "responseHeaders P hs =
     foldl (\<lambda>obj (key, val).
              set_prop obj (to_lower P key)
                (case val of Multi vs \<Rightarrow> join (js '', '') vs | Single v \<Rightarrow> v))
           Map.empty hs"

text \<open>
  \<^verbatim>\<open>doFetch\<close> (lines 131-187). The first call runs inside the executor of the promise,
  where the exception of \<^verbatim>\<open>new URL(fetchUrl)\<close> rejects the promise; the later calls run
  inside the response callback of the previous request, where nothing catches an exception.
  The recursion ends because \<open>redirects\<close> grows and is cut off above 5.

  \<open>stale\<close> is the late event of the request that redirected here, when that event is the one
  that settles the promise. It cannot come before what this call does at once (the cap, the
  exception of \<^verbatim>\<open>new URL\<close>); once the new request is on its way, it wins.
\<close>

function doFetch ::
    "platform \<Rightarrow> int option \<Rightarrow> jsstring \<Rightarrow> nat \<Rightarrow> late option \<Rightarrow> response outcome" where
  "doFetch P timeout fetchUrl redirects stale =
     (if redirects > 5 then Rejected TooManyRedirects
      else
        (case url_class P fetchUrl None of
           None \<Rightarrow> if redirects = 0 then Rejected InvalidURL else Crashed InvalidURL
         | Some parsed \<Rightarrow>
             (case stale of
                Some ev \<Rightarrow> Rejected (late_error ev)
              | None \<Rightarrow>
                  (case http_request P redirects parsed timeout of
                     ReqError m \<Rightarrow> Rejected (RequestError m)
                   | ReqTimeout \<Rightarrow> Rejected RequestTimedOut
                   | Response status hs content \<Rightarrow>
                       if status \<noteq> 0 \<and> status \<ge> 300 \<and> status < 400
                          \<and> truthy (header_location hs)
                       then
                         (case (if startsWith (the (header_location hs)) (js ''http'')
                                then Some (the (header_location hs))
                                else map_option href
                                       (url_class P (the (header_location hs)) (Some fetchUrl))) of
                            None \<Rightarrow> Crashed InvalidURL
                          | Some location \<Rightarrow>
                              doFetch P timeout location (redirects + 1)
                                (late_event P redirects parsed timeout))
                       else
                         Resolved \<lparr>statusCode = status, headers = responseHeaders P hs,
                                   body = content, finalUrl = fetchUrl\<rparr>))))"
  by pat_completeness auto
termination
  by (relation "measure (\<lambda>(P, timeout, fetchUrl, redirects, stale). 6 - redirects)") auto

declare doFetch.simps [simp del]

text \<open>\<^verbatim>\<open>fetchUrl\<close> (lines 129-191).\<close>

definition fetchUrl :: "platform \<Rightarrow> jsstring \<Rightarrow> int option \<Rightarrow> response outcome" where
  "fetchUrl P targetUrl timeout = doFetch P timeout targetUrl 0 None"

section \<open>Command line\<close>

text \<open>
  The values of \<^verbatim>\<open>Record<string, string | boolean>\<close>; \<^verbatim>\<open>s.indexOf(c)\<close>, with \<open>None\<close> for
  \<open>-1\<close>; \<^verbatim>\<open>s.slice(a, b)\<close> for \<open>0 \<le> a\<close> and \<open>0 \<le> b\<close>.
\<close>

datatype arg_value = Str jsstring | Bool bool

type_synonym Args = "jsstring \<rightharpoonup> arg_value"

fun indexOf :: "jsstring \<Rightarrow> jschar \<Rightarrow> nat option" where
  "indexOf [] c = None"
| "indexOf (x # xs) c = (if x = c then Some 0 else map_option Suc (indexOf xs c))"

definition slice :: "jsstring \<Rightarrow> nat \<Rightarrow> nat \<Rightarrow> jsstring" where
  "slice s a b = take (b - a) (drop a s)"

text \<open>
  \<^verbatim>\<open>parseArgs\<close> (lines 62-83). The loop runs over what is left of \<^verbatim>\<open>argv\<close>; a flag that
  takes the next token as its value leaves the rest after that token (\<^verbatim>\<open>i++\<close> twice).
\<close>

fun parseArgs_loop :: "jsstring list \<Rightarrow> Args \<Rightarrow> jsstring list \<Rightarrow> Args \<times> jsstring list" where
  "parseArgs_loop [] args positional = (args, positional)"
| "parseArgs_loop (arg # rest) args positional =
     (if startsWith arg (js ''--'') then
        (case indexOf arg 0x3D of
           Some eqIdx \<Rightarrow>
             parseArgs_loop rest
               (set_prop args (slice arg 2 eqIdx) (Str (drop (eqIdx + 1) arg))) positional
         | None \<Rightarrow>
             (case rest of
                next_arg # rest' \<Rightarrow>
                  if \<not> startsWith next_arg (js ''-'') then
                    parseArgs_loop rest' (set_prop args (drop 2 arg) (Str next_arg)) positional
                  else parseArgs_loop rest (set_prop args (drop 2 arg) (Bool True)) positional
              | [] \<Rightarrow> parseArgs_loop rest (set_prop args (drop 2 arg) (Bool True)) positional))
      else parseArgs_loop rest args (positional @ [arg]))"

definition parseArgs :: "jsstring list \<Rightarrow> Args" where
  "parseArgs argv =
     (case parseArgs_loop argv Map.empty [] of
        (args, positional) \<Rightarrow>
          if length positional > 0 then set_prop args (js ''_url'') (Str (hd positional))
          else args)"

text \<open>\<^verbatim>\<open>if (args[k])\<close>.\<close>

definition truthy_arg :: "arg_value option \<Rightarrow> bool" where
  "truthy_arg v = (case v of None \<Rightarrow> False | Some (Str s) \<Rightarrow> s \<noteq> [] | Some (Bool b) \<Rightarrow> b)"

text \<open>
  \<^verbatim>\<open>checkUrl\<close> (lines 510-515), an \<^verbatim>\<open>async\<close> function: an exception thrown in it rejects
  its promise.
\<close>

record check_result =
  result_tags :: OgTags
  result_issues :: "OgIssue list"
  result_url :: jsstring

definition checkUrl :: "platform \<Rightarrow> jsstring \<Rightarrow> int option \<Rightarrow> check_result outcome" where
  "checkUrl P targetUrl timeout =
     (case fetchUrl P targetUrl timeout of
        Crashed e \<Rightarrow> Crashed e
      | Rejected e \<Rightarrow> Rejected e
      | Resolved response \<Rightarrow>
          (case parseHtml P (body response) of
             Inl e \<Rightarrow> Rejected e
           | Inr tags \<Rightarrow>
               (case validateTags (url_class P) tags (finalUrl response) of
                  Inl e \<Rightarrow> Rejected e
                | Inr issues \<Rightarrow>
                    Resolved \<lparr>result_tags = tags, result_issues = issues,
                              result_url = finalUrl response\<rparr>)))"

text \<open>
  What a run prints, without the layout: the object given to \<^verbatim>\<open>JSON.stringify\<close>, the
  terminal report of a result, or one of the error messages.
\<close>

record json_report =
  report_url :: jsstring
  valid :: bool
  report_tags :: OgTags
  report_issues :: "OgIssue list"
  errors :: nat
  warnings :: nat
  info :: nat

datatype printed =
    HelpText
  | UsageError
  | InvalidUrlError arg_value
  | JsonReport json_report
  | TerminalReport check_result
  | JsonError jsstring
  | TerminalError jsstring
  | UncaughtException error

text \<open>\<^verbatim>\<open>issues.filter(i => i.severity === s).length\<close>.\<close>

definition count_severity :: "severity \<Rightarrow> OgIssue list \<Rightarrow> nat" where
  "count_severity s issues = length (filter (\<lambda>i. severity i = s) issues)"

text \<open>
  Lines 557-603 of \<^verbatim>\<open>main\<close>, for a result of \<^verbatim>\<open>checkUrl\<close>: the output and the exit code.
  The terminal report calls \<^verbatim>\<open>new URL(url).hostname\<close> when og:site_name is missing; its
  exception would be caught by the \<^verbatim>\<open>catch\<close> of line 604. A run that ends without
  \<^verbatim>\<open>process.exit\<close> has exit code 0.
\<close>

definition report :: "platform \<Rightarrow> bool \<Rightarrow> bool \<Rightarrow> check_result \<Rightarrow> printed \<times> nat" where
  "report P jsonOutput ciMode result =
     (if \<not> jsonOutput \<and> \<not> truthy (result_tags result (js ''og:site_name''))
         \<and> url_class P (result_url result) None = None
      then (TerminalError (message InvalidURL), 1)
      else
        (if jsonOutput then
           JsonReport \<lparr>report_url = result_url result,
                       valid = (count_severity Error (result_issues result) = 0),
                       report_tags = result_tags result,
                       report_issues = result_issues result,
                       errors = count_severity Error (result_issues result),
                       warnings = count_severity Warning (result_issues result),
                       info = count_severity Info (result_issues result)\<rparr>
         else TerminalReport result,
         if ciMode \<and> list_ex (\<lambda>i. severity i = Error) (result_issues result) then 1 else 0))"

text \<open>
  Lines 518-545 of \<^verbatim>\<open>main\<close>: the early exits, or the settings of the run. A target that is
  \<^verbatim>\<open>true\<close> (from a trailing \<^verbatim>\<open>--_url\<close>) has no \<^verbatim>\<open>startsWith\<close>; the exception is caught
  with those of \<^verbatim>\<open>new URL\<close>.
\<close>

record settings =
  fullUrl :: jsstring
  jsonOutput :: bool
  ciMode :: bool
  timeout_ms :: "int option"

definition main_setup :: "platform \<Rightarrow> jsstring list \<Rightarrow> (printed \<times> nat) + settings" where
  "main_setup P argv =
     (let args = parseArgs argv in
      if truthy_arg (args (js ''help'')) then Inl (HelpText, 0)
      else if \<not> truthy_arg (args (js ''_url'')) then Inl (UsageError, 1)
      else
        (case (case the (args (js ''_url'')) of
                 Bool b \<Rightarrow> None
               | Str targetUrl \<Rightarrow>
                   url_class P (if startsWith targetUrl (js ''http'') then targetUrl
                                else js ''https://'' @ targetUrl) None) of
           None \<Rightarrow> Inl (InvalidUrlError (the (args (js ''_url''))), 1)
         | Some parsedUrl \<Rightarrow>
             Inr \<lparr>fullUrl = href parsedUrl,
                  jsonOutput = truthy_arg (args (js ''json'')),
                  ciMode = truthy_arg (args (js ''ci'')),
                  timeout_ms =
                    parseInt (case args (js ''timeout'') of
                                None \<Rightarrow> js ''10000''
                              | Some (Str s) \<Rightarrow> if s \<noteq> [] then s else js ''10000''
                              | Some (Bool b) \<Rightarrow> if b then js ''true'' else js ''10000'')\<rparr>))"

text \<open>
  \<^verbatim>\<open>main\<close> (lines 517-617). An uncaught exception ends the process with exit code 1.
\<close>

definition main :: "platform \<Rightarrow> jsstring list \<Rightarrow> printed \<times> nat" where
  "main P argv =
     (case main_setup P argv of
        Inl early \<Rightarrow> early
      | Inr s \<Rightarrow>
          (case checkUrl P (fullUrl s) (timeout_ms s) of
             Resolved result \<Rightarrow> report P (jsonOutput s) (ciMode s) result
           | Rejected e \<Rightarrow>
               (if jsonOutput s then JsonError (message e) else TerminalError (message e), 1)
           | Crashed e \<Rightarrow> (UncaughtException e, 1)))"

section \<open>Reading the result of a validation\<close>

text \<open>
  The issues of a sequence that carry a given tag, and those that carry a given tag and
  severity. The properties below are stated with them.
\<close>

definition issues_for :: "jsstring \<Rightarrow> OgIssue list \<Rightarrow> OgIssue list" where
  "issues_for t issues = filter (\<lambda>i. tag i = t) issues"

definition issues_with :: "jsstring \<Rightarrow> severity \<Rightarrow> OgIssue list \<Rightarrow> OgIssue list" where
  "issues_with t s issues = filter (\<lambda>i. tag i = t \<and> severity i = s) issues"


text \<open>
  A small instance of the platform's \<^verbatim>\<open>URL\<close> class, to run the examples: the absolute
  URLs below \<^verbatim>\<open>https://example.com/\<close> without query, and the references that start with
  one slash, resolved against such a URL. Everywhere else it throws. The real class does not,
  except on references such as \<^verbatim>\<open>//[\<close>, whose host is not valid; the examples use no other
  input outside the fragment.
\<close>

definition sample_URL :: url_api where
  "sample_URL input base =
     (if startsWith input (js ''https://example.com/'') then
        Some \<lparr>href = input, protocol = js ''https:'', hostname = js ''example.com'',
              port = [], pathname = drop 19 input, search = []\<rparr>
      else if startsWith input (js ''/'') \<and> \<not> startsWith input (js ''//'')
              \<and> (case base of None \<Rightarrow> False | Some b \<Rightarrow> startsWith b (js ''https://example.com/''))
      then
        Some \<lparr>href = js ''https://example.com'' @ input, protocol = js ''https:'',
              hostname = js ''example.com'', port = [], pathname = input, search = []\<rparr>
      else None)"

text \<open>
  Redirect chains. \<open>redirect_to P timeout hop u = Some v\<close>: the request for \<open>u\<close>, made after
  \<open>hop\<close> redirects, is answered by a 3xx response whose \<^verbatim>\<open>Location\<close> header is not empty and
  names \<open>v\<close> (as it is when it starts with \<open>http\<close>, resolved against \<open>u\<close> otherwise).
  \<open>redirect_chain P timeout hop us\<close>: each URL of \<open>us\<close> redirects to the next one.
  \<open>answers_200\<close>: the request is answered by a 200 response with these headers and body.
  \<open>quiet_hops P timeout hop us\<close>: none of the requests for the URLs \<open>us\<close>, made from hop \<open>hop\<close>
  on, has a late event that settles the promise.
\<close>

definition redirect_to :: "platform \<Rightarrow> int option \<Rightarrow> nat \<Rightarrow> jsstring \<Rightarrow> jsstring option" where
  "redirect_to P timeout hop u =
     (case url_class P u None of
        None \<Rightarrow> None
      | Some parsed \<Rightarrow>
          (case http_request P hop parsed timeout of
             Response status hs content \<Rightarrow>
               if 300 \<le> status \<and> status < 400 \<and> truthy (header_location hs) then
                 (if startsWith (the (header_location hs)) (js ''http'')
                  then Some (the (header_location hs))
                  else map_option href (url_class P (the (header_location hs)) (Some u)))
               else None
           | _ \<Rightarrow> None))"

fun redirect_chain :: "platform \<Rightarrow> int option \<Rightarrow> nat \<Rightarrow> jsstring list \<Rightarrow> bool" where
  "redirect_chain P timeout hop (u # v # us) =
     (redirect_to P timeout hop u = Some v \<and> redirect_chain P timeout (Suc hop) (v # us))"
| "redirect_chain P timeout hop us = True"

definition answers_200 :: "platform \<Rightarrow> int option \<Rightarrow> nat \<Rightarrow> jsstring \<Rightarrow> (jsstring \<times> header_value) list \<Rightarrow> jsstring \<Rightarrow> bool" where
  "answers_200 P timeout hop u hs content =
     (case url_class P u None of
        None \<Rightarrow> False
      | Some parsed \<Rightarrow> http_request P hop parsed timeout = Response 200 hs content)"

definition late_at :: "platform \<Rightarrow> int option \<Rightarrow> nat \<Rightarrow> jsstring \<Rightarrow> late option" where
  "late_at P timeout hop u =
     (case url_class P u None of
        None \<Rightarrow> None
      | Some parsed \<Rightarrow> late_event P hop parsed timeout)"

fun quiet_hops :: "platform \<Rightarrow> int option \<Rightarrow> nat \<Rightarrow> jsstring list \<Rightarrow> bool" where
  "quiet_hops P timeout hop [] = True"
| "quiet_hops P timeout hop (u # us) =
     (late_at P timeout hop u = None \<and> quiet_hops P timeout (Suc hop) us)"

text \<open>
  Sample platforms for the examples: the URL class above, ASCII lower case, no late events, and
  a network that redirects every request to \<open>/next\<close>, one that does so five times before it
  answers, and one that serves a fixed page. On \<open>impatient_platform\<close> the first request, once
  redirected, times out before the later ones are answered.
\<close>

definition to_lower_ascii :: "jschar \<Rightarrow> jschar" where
  "to_lower_ascii x = (if 0x41 \<le> x \<and> x \<le> 0x5A then x + 0x20 else x)"

definition sample_platform :: "(nat \<Rightarrow> URL \<Rightarrow> int option \<Rightarrow> net_event) \<Rightarrow> platform" where
  "sample_platform net =
     \<lparr>url_class = sample_URL, http_request = net, late_event = (\<lambda>hop u timeout. None),
      to_lower = map to_lower_ascii\<rparr>"

definition redirect_forever :: "nat \<Rightarrow> URL \<Rightarrow> int option \<Rightarrow> net_event" where
  "redirect_forever hop u timeout = Response 302 [(js ''location'', Single (js ''/next''))] []"

definition redirect_five_times :: "nat \<Rightarrow> URL \<Rightarrow> int option \<Rightarrow> net_event" where
  "redirect_five_times hop u timeout =
     (if hop < 5 then Response 302 [(js ''location'', Single (js ''/next''))] []
      else Response 200 [] (js ''<title>Done</title>''))"

definition serve :: "jsstring \<Rightarrow> nat \<Rightarrow> URL \<Rightarrow> int option \<Rightarrow> net_event" where
  "serve page hop u timeout = Response 200 [] page"

definition impatient_platform :: platform where
  "impatient_platform =
     (sample_platform redirect_five_times)
       \<lparr>late_event := (\<lambda>hop u timeout. if hop = 0 then Some LateTimeout else None)\<rparr>"

text \<open>
  The \<^verbatim>\<open><meta>\<close> elements that the loop of lines 206-221 visits, as their attribute texts,
  and the key that one element stores: the lower-cased value of its \<^verbatim>\<open>property\<close> or
  \<^verbatim>\<open>name\<close> attribute, when it is not empty (nor \<^verbatim>\<open>__proto__\<close>) and the element has a
  \<^verbatim>\<open>content\<close> attribute.
\<close>

function meta_elements :: "jsstring \<Rightarrow> jsstring list" where
  "meta_elements s =
     (case find_match meta_re s of
        None \<Rightarrow> []
      | Some (k, rest, cap) \<Rightarrow>
          (case cap of None \<Rightarrow> [] | Some attrs \<Rightarrow> attrs # meta_elements rest))"
  by pat_completeness auto
termination
  by (relation "measure length")
     (auto dest: find_match_consuming simp: meta_re_consuming)

declare meta_elements.simps [simp del]

definition meta_key :: "platform \<Rightarrow> jsstring \<Rightarrow> jsstring option" where
  "meta_key P attrs =
     (case find_match prop_re attrs of
        None \<Rightarrow> None
      | Some (k, rest, cap) \<Rightarrow>
          (case cap of
             None \<Rightarrow> None
           | Some name \<Rightarrow>
               if to_lower P name \<noteq> [] \<and> to_lower P name \<noteq> js ''__proto__''
                  \<and> find_match content_re attrs \<noteq> None
               then Some (to_lower P name) else None))"

definition good_page :: jsstring where
  "good_page = js ''<meta name=\"og:title\" content=\"T\"><meta name=\"og:description\" content=\"D\"><meta name=\"og:image\" content=\"http://e/i\">''"

definition small_page :: jsstring where
  "small_page = js ''<title>T</title><meta name=\"a\" content=\"b\">''"

text \<open>
  \<open>capturing r\<close> is read off the expression: every match of \<open>r\<close> goes through the group.
\<close>

fun capturing :: "regex \<Rightarrow> bool" where
  "capturing Eps = False"
| "capturing (Atom p) = False"
| "capturing (Seq a b) = (capturing a \<or> capturing b)"
| "capturing (Alt a b) = (capturing a \<and> capturing b)"
| "capturing (Star greedy a) = False"
| "capturing (Group a) = True"

section \<open>Lemmas on strings and on the validator\<close>

lemma of_char_word_eq_iff: "(of_char a :: 16 word) = of_char b \<longleftrightarrow> a = b"
proof
  assume h: "(of_char a :: 16 word) = of_char b"
  have "(of_nat (of_char a) :: 16 word) = of_nat (of_char b)"
    using h by (simp only: of_nat_of_char)
  then have "take_bit 16 (of_char a :: nat) = take_bit 16 (of_char b :: nat)"
    by (simp add: word_of_nat_eq_iff)
  moreover have "(of_char a :: nat) < 2 ^ 16" "(of_char b :: nat) < 2 ^ 16"
    by (rule less_trans [OF nat_of_char_less_256], simp)+
  ultimately have "(of_char a :: nat) = of_char b"
    by (simp add: take_bit_nat_eq_self)
  then show "a = b" by simp
qed simp

lemma js_eq_iff [simp]: "js a = js b \<longleftrightarrow> a = b"
  unfolding js_def by (rule inj_map_eq_map) (simp add: inj_def of_char_word_eq_iff)

lemma js_Nil_iff [simp]: "js a = [] \<longleftrightarrow> a = []" "[] = js a \<longleftrightarrow> a = []"
  by (auto simp: js_def)

lemma issues_for_append [simp]: "issues_for t (xs @ ys) = issues_for t xs @ issues_for t ys"
  by (simp add: issues_for_def)

lemma issues_for_none: "(\<And>i. i \<in> set xs \<Longrightarrow> tag i \<noteq> t) \<Longrightarrow> issues_for t xs = []"
  by (simp add: issues_for_def)

lemma issues_for_all: "(\<And>i. i \<in> set xs \<Longrightarrow> tag i = t) \<Longrightarrow> issues_for t xs = xs"
  by (simp add: issues_for_def)

lemma tag_check_og_title: "i \<in> set (check_og_title tags) \<Longrightarrow> tag i = js ''og:title''"
  by (auto simp: check_og_title_def split: if_splits)

lemma tag_check_og_description:
  "i \<in> set (check_og_description tags) \<Longrightarrow> tag i = js ''og:description''"
  by (auto simp: check_og_description_def split: if_splits)

lemma tag_check_image_absolute:
  "check_image_absolute newURL img url = Inr xs \<Longrightarrow> i \<in> set xs \<Longrightarrow>
   tag i = js ''og:image'' \<and> severity i = Error"
  by (auto simp: check_image_absolute_def split: if_splits option.splits)

lemma tag_check_image_dimensions:
  "i \<in> set (check_image_dimensions tags) \<Longrightarrow>
   tag i = js ''og:image:width/height'' \<or> tag i = js ''og:image'' \<and> severity i = Warning"
  by (auto simp: check_image_dimensions_def Let_def split: if_splits)

lemma tag_check_image_alt: "i \<in> set (check_image_alt tags) \<Longrightarrow> tag i = js ''og:image:alt''"
  by (auto simp: check_image_alt_def split: if_splits)

lemma tag_check_og_image:
  assumes "check_og_image newURL tags url = Inr xs" and "i \<in> set xs"
  shows "tag i \<in> {js ''og:image'', js ''og:image:width/height'', js ''og:image:alt''}"
proof (cases "truthy (tags (js ''og:image''))")
  case False
  with assms show ?thesis by (auto simp: check_og_image_def)
next
  case True
  with assms obtain a where
    a: "check_image_absolute newURL (the (tags (js ''og:image''))) url = Inr a"
    and xs: "xs = a @ check_image_dimensions tags @ check_image_alt tags"
    by (auto simp: check_og_image_def split: sum.splits)
  from assms(2) xs show ?thesis
    using tag_check_image_absolute [OF a, of i] tag_check_image_dimensions [of i tags]
      tag_check_image_alt [of i tags]
    by auto
qed

lemma tag_check_og_url: "i \<in> set (check_og_url tags url) \<Longrightarrow> tag i = js ''og:url''"
  by (auto simp: check_og_url_def split: if_splits)

lemma tag_check_og_type: "i \<in> set (check_og_type tags) \<Longrightarrow> tag i = js ''og:type''"
  by (auto simp: check_og_type_def split: if_splits)

lemma tag_check_twitter_card:
  "i \<in> set (check_twitter_card tags) \<Longrightarrow> tag i = js ''twitter:card''"
  by (auto simp: check_twitter_card_def split: if_splits)

lemma tag_check_twitter_title:
  "i \<in> set (check_twitter_title tags) \<Longrightarrow> tag i = js ''twitter:title''"
  by (auto simp: check_twitter_title_def split: if_splits)

lemma tag_check_twitter_image:
  "i \<in> set (check_twitter_image tags) \<Longrightarrow> tag i = js ''twitter:image''"
  by (auto simp: check_twitter_image_def split: if_splits)

lemma tag_check_title: "i \<in> set (check_title tags) \<Longrightarrow> tag i = js ''title''"
  by (auto simp: check_title_def split: if_splits)

lemma tag_check_description:
  "i \<in> set (check_description tags) \<Longrightarrow> tag i = js ''description''"
  by (auto simp: check_description_def split: if_splits)

lemma tag_check_canonical:
  "i \<in> set (check_canonical tags url) \<Longrightarrow> tag i = js ''canonical''"
  by (auto simp: check_canonical_def split: if_splits)

text \<open>
  What \<open>validateTags\<close> returns, when it returns; then the issues tagged og:title are those
  of the first statement, and the issues tagged og:image those of the og:image block.
\<close>

lemma validateTags_InrD:
  assumes "validateTags newURL tags url = Inr issues"
  obtains image_issues where
    "check_og_image newURL tags url = Inr image_issues"
    "issues = check_og_title tags @ check_og_description tags @ image_issues
               @ check_og_url tags url @ check_og_type tags
               @ check_twitter_card tags @ check_twitter_title tags @ check_twitter_image tags
               @ check_title tags @ check_description tags @ check_canonical tags url"
  using assms by (auto simp: validateTags_def split: sum.splits)

lemma issues_for_og_title:
  assumes "validateTags newURL tags url = Inr issues"
  shows "issues_for (js ''og:title'') issues = check_og_title tags"
proof -
  from assms obtain image_issues where
    im: "check_og_image newURL tags url = Inr image_issues" and
    iss: "issues = check_og_title tags @ check_og_description tags @ image_issues
               @ check_og_url tags url @ check_og_type tags
               @ check_twitter_card tags @ check_twitter_title tags @ check_twitter_image tags
               @ check_title tags @ check_description tags @ check_canonical tags url"
    by (rule validateTags_InrD)
  have 1: "issues_for (js ''og:title'') (check_og_title tags) = check_og_title tags"
    by (rule issues_for_all) (rule tag_check_og_title)
  have 2: "issues_for (js ''og:title'') (check_og_description tags) = []"
    by (rule issues_for_none) (auto dest: tag_check_og_description)
  have 3: "issues_for (js ''og:title'') image_issues = []"
    by (rule issues_for_none) (auto dest: tag_check_og_image [OF im])
  have 4: "issues_for (js ''og:title'') (check_og_url tags url) = []"
    by (rule issues_for_none) (auto dest: tag_check_og_url)
  have 5: "issues_for (js ''og:title'') (check_og_type tags) = []"
    by (rule issues_for_none) (auto dest: tag_check_og_type)
  have 6: "issues_for (js ''og:title'') (check_twitter_card tags) = []"
    by (rule issues_for_none) (auto dest: tag_check_twitter_card)
  have 7: "issues_for (js ''og:title'') (check_twitter_title tags) = []"
    by (rule issues_for_none) (auto dest: tag_check_twitter_title)
  have 8: "issues_for (js ''og:title'') (check_twitter_image tags) = []"
    by (rule issues_for_none) (auto dest: tag_check_twitter_image)
  have 9: "issues_for (js ''og:title'') (check_title tags) = []"
    by (rule issues_for_none) (auto dest: tag_check_title)
  have 10: "issues_for (js ''og:title'') (check_description tags) = []"
    by (rule issues_for_none) (auto dest: tag_check_description)
  have 11: "issues_for (js ''og:title'') (check_canonical tags url) = []"
    by (rule issues_for_none) (auto dest: tag_check_canonical)
  show ?thesis
    unfolding iss by (simp add: 1 2 3 4 5 6 7 8 9 10 11)
qed


lemma check_image_absolute_returns_iff:
  "(\<exists>xs. check_image_absolute newURL img url = Inr xs) \<longleftrightarrow>
     (startsWith img (js ''http'') \<or> newURL img (Some url) \<noteq> None)"
  by (auto simp: check_image_absolute_def split: option.splits)

lemma validateTags_returns_iff:
  "(\<exists>issues. validateTags newURL tags url = Inr issues) \<longleftrightarrow>
     (\<not> truthy (tags (js ''og:image'')) \<or> startsWith (the (tags (js ''og:image''))) (js ''http'')
      \<or> newURL (the (tags (js ''og:image''))) (Some url) \<noteq> None)"
proof (cases "truthy (tags (js ''og:image''))")
  case False
  then show ?thesis by (simp add: validateTags_def check_og_image_def)
next
  case True
  have "(\<exists>issues. validateTags newURL tags url = Inr issues) \<longleftrightarrow>
        (\<exists>xs. check_image_absolute newURL (the (tags (js ''og:image''))) url = Inr xs)"
    using True by (auto simp: validateTags_def check_og_image_def split: sum.splits)
  then show ?thesis using True by (simp add: check_image_absolute_returns_iff)
qed




lemma issues_with_for: "issues_with t s xs = filter (\<lambda>i. severity i = s) (issues_for t xs)"
  by (simp add: issues_with_def issues_for_def conj_commute)

lemma issues_for_og_image:
  assumes "validateTags newURL tags url = Inr issues"
    and "check_og_image newURL tags url = Inr image_issues"
  shows "issues_for (js ''og:image'') issues = issues_for (js ''og:image'') image_issues"
proof -
  from assms have
    iss: "issues = check_og_title tags @ check_og_description tags @ image_issues
               @ check_og_url tags url @ check_og_type tags
               @ check_twitter_card tags @ check_twitter_title tags @ check_twitter_image tags
               @ check_title tags @ check_description tags @ check_canonical tags url"
    by (auto simp: validateTags_def)
  have 1: "issues_for (js ''og:image'') (check_og_title tags) = []"
    by (rule issues_for_none) (auto dest: tag_check_og_title)
  have 2: "issues_for (js ''og:image'') (check_og_description tags) = []"
    by (rule issues_for_none) (auto dest: tag_check_og_description)
  have 4: "issues_for (js ''og:image'') (check_og_url tags url) = []"
    by (rule issues_for_none) (auto dest: tag_check_og_url)
  have 5: "issues_for (js ''og:image'') (check_og_type tags) = []"
    by (rule issues_for_none) (auto dest: tag_check_og_type)
  have 6: "issues_for (js ''og:image'') (check_twitter_card tags) = []"
    by (rule issues_for_none) (auto dest: tag_check_twitter_card)
  have 7: "issues_for (js ''og:image'') (check_twitter_title tags) = []"
    by (rule issues_for_none) (auto dest: tag_check_twitter_title)
  have 8: "issues_for (js ''og:image'') (check_twitter_image tags) = []"
    by (rule issues_for_none) (auto dest: tag_check_twitter_image)
  have 9: "issues_for (js ''og:image'') (check_title tags) = []"
    by (rule issues_for_none) (auto dest: tag_check_title)
  have 10: "issues_for (js ''og:image'') (check_description tags) = []"
    by (rule issues_for_none) (auto dest: tag_check_description)
  have 11: "issues_for (js ''og:image'') (check_canonical tags url) = []"
    by (rule issues_for_none) (auto dest: tag_check_canonical)
  show ?thesis
    unfolding iss by (simp add: 1 2 4 5 6 7 8 9 10 11)
qed

lemma issues_with_image_absolute:
  assumes "check_image_absolute newURL img url = Inr xs"
  shows "issues_with (js ''og:image'') Warning xs = []"
    and "issues_with (js ''og:image'') Error xs = xs"
  using tag_check_image_absolute [OF assms]
  by (auto simp: issues_with_def filter_empty_conv filter_id_conv)

lemma issues_with_image_alt: "issues_with (js ''og:image'') s (check_image_alt tags) = []"
  by (auto simp: issues_with_def filter_empty_conv dest: tag_check_image_alt)

lemma issues_with_image_dimensions_Error:
  "issues_with (js ''og:image'') Error (check_image_dimensions tags) = []"
  by (auto simp: issues_with_def filter_empty_conv dest: tag_check_image_dimensions)

lemma issues_with_append: "issues_with t s (xs @ ys) = issues_with t s xs @ issues_with t s ys"
  by (simp add: issues_with_def)


lemma og_image_errors:
  assumes "truthy (tags (js ''og:image''))" and "validateTags newURL tags url = Inr issues"
    and "check_image_absolute newURL (the (tags (js ''og:image''))) url = Inr a"
  shows "issues_with (js ''og:image'') Error issues = a"
proof -
  from assms have
    im: "check_og_image newURL tags url = Inr (a @ check_image_dimensions tags @ check_image_alt tags)"
    by (auto simp: check_og_image_def)
  have "issues_with (js ''og:image'') Error issues
        = issues_with (js ''og:image'') Error (a @ check_image_dimensions tags @ check_image_alt tags)"
    by (simp add: issues_with_for issues_for_og_image [OF assms(2) im])
  also have "\<dots> = a"
    by (simp add: issues_with_append issues_with_image_absolute(2) [OF assms(3)]
        issues_with_image_alt issues_with_image_dimensions_Error)
  finally show ?thesis .
qed


section \<open>Lemmas on the fetcher, the extractor and the command line\<close>

lemma doFetch_redirect:
  assumes "redirect_to P timeout hop u = Some v" and "hop \<le> 5"
  shows "doFetch P timeout u hop None = doFetch P timeout v (hop + 1) (late_at P timeout hop u)"
  using assms
  by (subst doFetch.simps)
     (auto simp: redirect_to_def late_at_def split: option.splits net_event.splits if_splits)

lemma doFetch_too_many:
  "5 < hop \<Longrightarrow> doFetch P timeout u hop stale = Rejected TooManyRedirects"
  by (subst doFetch.simps) simp

lemma doFetch_200:
  assumes "answers_200 P timeout hop u hs content" and "hop \<le> 5"
  shows "doFetch P timeout u hop None =
           Resolved \<lparr>statusCode = 200, headers = responseHeaders P hs,
                      body = content, finalUrl = u\<rparr>"
  using assms
  by (subst doFetch.simps) (auto simp: answers_200_def split: option.splits)

lemma doFetch_stale:
  assumes "url_class P u None \<noteq> None" and "hop \<le> 5"
  shows "doFetch P timeout u hop (Some ev) = Rejected (late_error ev)"
  using assms by (subst doFetch.simps) auto

text \<open>
  Along a chain of redirects the fetch moves to the last URL; what it carries there is the late
  event of the last redirect, when the redirects before it were quiet.
\<close>

lemma doFetch_chain:
  assumes "redirect_chain P timeout hop (u # v # us)"
    and "quiet_hops P timeout hop (butlast (u # butlast (v # us)))"
    and "hop + length us \<le> 5"
  shows "doFetch P timeout u hop None =
           doFetch P timeout (last (v # us)) (hop + length us + 1)
             (late_at P timeout (hop + length us) (last (u # butlast (v # us))))"
  using assms
proof (induction us arbitrary: u v hop)
  case Nil
  then show ?case by (simp add: doFetch_redirect)
next
  case (Cons w ws)
  from Cons.prems have r: "redirect_to P timeout hop u = Some v" and h: "hop \<le> 5"
    and q: "late_at P timeout hop u = None"
    by simp_all
  from r h q have "doFetch P timeout u hop None = doFetch P timeout v (hop + 1) None"
    by (simp add: doFetch_redirect)
  also have "\<dots> = doFetch P timeout (last (w # ws)) (Suc hop + length ws + 1)
             (late_at P timeout (Suc hop + length ws) (last (v # butlast (w # ws))))"
    using Cons.prems by (subst Cons.IH) simp_all
  finally show ?case by simp
qed

lemma quiet_hops_append:
  "quiet_hops P timeout hop (xs @ ys) \<longleftrightarrow>
     quiet_hops P timeout hop xs \<and> quiet_hops P timeout (hop + length xs) ys"
  by (induction xs arbitrary: hop) auto

lemma sample_URL_next:
  "sample_URL (js ''https://example.com/next'') None =
     Some \<lparr>href = js ''https://example.com/next'', protocol = js ''https:'',
           hostname = js ''example.com'', port = [], pathname = js ''/next'', search = []\<rparr>"
  "sample_URL (js ''https://example.com/'') None =
     Some \<lparr>href = js ''https://example.com/'', protocol = js ''https:'',
           hostname = js ''example.com'', port = [], pathname = js ''/'', search = []\<rparr>"
  "sample_URL (js ''/next'') (Some (js ''https://example.com/next'')) =
     Some \<lparr>href = js ''https://example.com/next'', protocol = js ''https:'',
           hostname = js ''example.com'', port = [], pathname = js ''/next'', search = []\<rparr>"
  "sample_URL (js ''/next'') (Some (js ''https://example.com/'')) =
     Some \<lparr>href = js ''https://example.com/next'', protocol = js ''https:'',
           hostname = js ''example.com'', port = [], pathname = js ''/next'', search = []\<rparr>"
  by (simp_all add: sample_URL_def startsWith_def js_def)

lemma sample_platform_sel:
  "url_class (sample_platform net) = sample_URL"
  "http_request (sample_platform net) = net"
  "late_event (sample_platform net) = (\<lambda>hop u timeout. None)"
  "to_lower (sample_platform net) = map to_lower_ascii"
  by (simp_all add: sample_platform_def)

lemma impatient_platform_sel:
  "url_class impatient_platform = sample_URL"
  "http_request impatient_platform = redirect_five_times"
  "late_event impatient_platform = (\<lambda>hop u timeout. if hop = 0 then Some LateTimeout else None)"
  by (simp_all add: impatient_platform_def sample_platform_def)

lemma redirect_to_sample:
  "redirect_to (sample_platform redirect_forever) t hop (js ''https://example.com/next'')
     = Some (js ''https://example.com/next'')"
  "redirect_to (sample_platform redirect_forever) t hop (js ''https://example.com/'')
     = Some (js ''https://example.com/next'')"
  "hop < 5 \<Longrightarrow>
   redirect_to (sample_platform redirect_five_times) t hop (js ''https://example.com/next'')
     = Some (js ''https://example.com/next'')"
  "hop < 5 \<Longrightarrow>
   redirect_to (sample_platform redirect_five_times) t hop (js ''https://example.com/'')
     = Some (js ''https://example.com/next'')"
  "hop < 5 \<Longrightarrow>
   redirect_to impatient_platform t hop (js ''https://example.com/next'')
     = Some (js ''https://example.com/next'')"
  "hop < 5 \<Longrightarrow>
   redirect_to impatient_platform t hop (js ''https://example.com/'')
     = Some (js ''https://example.com/next'')"
  by (simp_all add: redirect_to_def sample_platform_sel impatient_platform_sel sample_URL_next
      redirect_forever_def redirect_five_times_def header_location_def truthy_def)
     (simp_all add: startsWith_def js_def)

lemma quiet_hops_sample: "quiet_hops (sample_platform net) t hop us"
  by (induction us arbitrary: hop) (simp_all add: late_at_def sample_platform_sel split: option.splits)

lemma ms_keeps_capture:
  "cap \<noteq> None \<Longrightarrow> (s', c') \<in> set (ms r s cap) \<Longrightarrow> c' \<noteq> None"
proof (induction r s cap arbitrary: s' c' rule: ms.induct)
  case (2 p s cap)
  then show ?case by (auto split: list.splits if_splits)
next
  case (3 a b s cap)
  from "3.prems"(2) obtain s1 c1 where
    m1: "(s1, c1) \<in> set (ms a s cap)" and m2: "(s', c') \<in> set (ms b s1 c1)"
    by auto
  from "3.IH"(1) [OF "3.prems"(1) m1] have "c1 \<noteq> None" .
  from "3.IH"(2) [OF m1 refl this m2] show ?case .
next
  case (5 greedy a s cap)
  from "5.prems"(2) have
    "(s', c') = (s, cap) \<or>
     (\<exists>s1 c1. (s1, c1) \<in> set (ms a s cap) \<and> length s1 < length s \<and>
        (s', c') \<in> set (ms (Star greedy a) s1 c1))"
    by (subst (asm) ms.simps(5)) (auto simp: Let_def split: if_splits)
  then show ?case
  proof
    assume "(s', c') = (s, cap)"
    with "5.prems"(1) show ?thesis by simp
  next
    assume "\<exists>s1 c1. (s1, c1) \<in> set (ms a s cap) \<and> length s1 < length s \<and>
        (s', c') \<in> set (ms (Star greedy a) s1 c1)"
    then obtain s1 c1 where m1: "(s1, c1) \<in> set (ms a s cap)" and lt: "length s1 < length s"
      and m2: "(s', c') \<in> set (ms (Star greedy a) s1 c1)" by blast
    from "5.IH"(1) [OF "5.prems"(1) m1] have "c1 \<noteq> None" .
    from "5.IH"(2) [OF m1 refl lt this m2] show ?thesis .
  qed
qed auto


lemma ms_capturing:
  "capturing r \<Longrightarrow> (s', c') \<in> set (ms r s cap) \<Longrightarrow> c' \<noteq> None"
proof (induction r arbitrary: s cap s' c')
  case (Seq a b)
  from Seq.prems(2) obtain s1 c1 where
    m1: "(s1, c1) \<in> set (ms a s cap)" and m2: "(s', c') \<in> set (ms b s1 c1)"
    by auto
  from Seq.prems(1) have "capturing a \<or> capturing b" by simp
  then show ?case
  proof
    assume "capturing a"
    from Seq.IH(1) [OF this m1] have "c1 \<noteq> None" .
    then show ?thesis using m2 by (rule ms_keeps_capture)
  next
    assume "capturing b"
    from Seq.IH(2) [OF this m2] show ?thesis .
  qed
next
  case (Alt a b)
  then show ?case by auto
next
  case (Group a)
  then show ?case by auto
qed simp_all


lemma find_match_capturing:
  assumes "find_match r s = Some (k, s', cap)" and "capturing r"
  shows "cap \<noteq> None"
  using find_match_Some [OF assms(1)] ms_capturing [OF assms(2)] by blast


lemma patterns_capturing:
  "capturing title_re" "capturing meta_re" "capturing prop_re" "capturing content_re"
  "capturing desc_re1" "capturing desc_re2" "capturing canonical_re1" "capturing canonical_re2"
  "capturing favicon_re"
  by (simp_all add: title_re_def meta_re_def prop_re_def content_re_def desc_re1_def
      desc_re2_def canonical_re1_def canonical_re2_def favicon_re_def tag_re_def attr_is_def
      attr_group_def seq_def)



lemma on_group_returns: "cap \<noteq> None \<Longrightarrow> \<exists>x. on_group cap method f = Inr x"
  by (auto simp: on_group_def)

lemma parse_title_returns: "\<exists>t. parse_title html tags = Inr t"
  by (auto simp: parse_title_def split: option.splits
      dest: find_match_capturing [OF _ patterns_capturing(1)] intro!: on_group_returns)

lemma parse_meta_returns: "\<exists>t. parse_meta P attrs tags = Inr t"
proof -
  have key: "\<exists>key. (case find_match prop_re attrs of
          None \<Rightarrow> Inr []
        | Some (k, rest, cap) \<Rightarrow> on_group cap ''toLowerCase'' (to_lower P)) = Inr key"
    by (auto split: option.splits dest: find_match_capturing [OF _ patterns_capturing(3)]
        intro!: on_group_returns)
  have val: "\<exists>t. (case find_match content_re attrs of
            None \<Rightarrow> Inr tags
          | Some (k, rest, cap) \<Rightarrow>
              if key \<noteq> [] then
                on_group cap ''replace'' (\<lambda>g. set_prop tags key (decodeHtmlEntities g))
              else Inr tags) = Inr t" for key
    by (auto split: option.splits dest: find_match_capturing [OF _ patterns_capturing(4)]
        intro!: on_group_returns)
  from key obtain key where "(case find_match prop_re attrs of
          None \<Rightarrow> Inr []
        | Some (k, rest, cap) \<Rightarrow> on_group cap ''toLowerCase'' (to_lower P)) = Inr key" ..
  with val [of key] show ?thesis
    by (simp add: parse_meta_def then_step_def)
qed

lemma parse_metas_returns: "\<exists>t. parse_metas P s tags = Inr t"
proof (induction P s tags rule: parse_metas.induct)
  case (1 P s tags)
  show ?case
  proof (cases "find_match meta_re s")
    case None
    then show ?thesis by (subst parse_metas.simps) simp
  next
    case (Some m)
    obtain k rest cap where m: "m = (k, rest, cap)" by (cases m)
    from Some m find_match_capturing [OF _ patterns_capturing(2)] obtain attrs where
      cap: "cap = Some attrs" by fastforce
    obtain t where t: "parse_meta P attrs tags = Inr t"
      using parse_meta_returns by blast
    from "1.IH" Some m
    obtain t' where "parse_metas P rest t = Inr t'" by blast
    with Some m cap t show ?thesis
      by (subst parse_metas.simps) (simp add: then_step_def on_group_def)
  qed
qed

lemma parse_metas_no_match: "find_match meta_re s = None \<Longrightarrow> parse_metas P s tags = Inr tags"
  by (subst parse_metas.simps) simp

lemma match_either_capturing:
  "match_either r1 r2 html = Some (k, rest, cap) \<Longrightarrow> capturing r1 \<Longrightarrow> capturing r2 \<Longrightarrow>
   cap \<noteq> None"
  by (auto simp: match_either_def split: option.splits dest: find_match_capturing)

lemma parse_description_returns: "\<exists>t. parse_description html tags = Inr t"
  by (auto simp: parse_description_def split: option.splits
      dest: match_either_capturing [OF _ patterns_capturing(5,6)] intro!: on_group_returns)

lemma parseHtml_returns: "\<exists>tags. parseHtml P html = Inr tags"
proof -
  obtain t1 where t1: "parse_title html Map.empty = Inr t1"
    using parse_title_returns by blast
  obtain t2 where t2: "parse_metas P html t1 = Inr t2"
    using parse_metas_returns by blast
  obtain t3 where t3: "parse_description html t2 = Inr t3"
    using parse_description_returns by blast
  from t1 t2 t3 show ?thesis by (simp add: parseHtml_def then_step_def)
qed

lemma dom_parse_title:
  "parse_title html tags = Inr t \<Longrightarrow> k \<in> dom t \<Longrightarrow>
   k \<in> dom tags \<or> k = js ''title'' \<and> find_match title_re html \<noteq> None"
  by (auto simp: parse_title_def on_group_def set_prop_def split: option.splits if_splits)

lemma dom_parse_description:
  "parse_description html tags = Inr t \<Longrightarrow> k \<in> dom t \<Longrightarrow>
   k \<in> dom tags \<or> k = js ''description'' \<and> match_either desc_re1 desc_re2 html \<noteq> None"
  by (auto simp: parse_description_def on_group_def set_prop_def split: option.splits if_splits)

lemma dom_parse_canonical:
  "k \<in> dom (parse_canonical html tags) \<Longrightarrow>
   k \<in> dom tags \<or> k = js ''canonical'' \<and> match_either canonical_re1 canonical_re2 html \<noteq> None"
  by (auto simp: parse_canonical_def split: option.splits if_splits)

lemma dom_parse_favicon:
  "k \<in> dom (parse_favicon html tags) \<Longrightarrow>
   k \<in> dom tags \<or> k = js ''favicon'' \<and> find_match favicon_re html \<noteq> None"
  by (auto simp: parse_favicon_def split: option.splits if_splits)

lemma dom_parse_meta:
  "parse_meta P attrs tags = Inr t \<Longrightarrow> k \<in> dom t \<Longrightarrow>
   k \<in> dom tags \<or> meta_key P attrs = Some k"
  by (auto simp: parse_meta_def meta_key_def then_step_def on_group_def set_prop_def
      split: option.splits if_splits sum.splits)

lemma meta_elements_no_match: "find_match meta_re s = None \<Longrightarrow> meta_elements s = []"
  by (subst meta_elements.simps) simp

lemma meta_elements_match:
  "find_match meta_re s = Some (j, rest, Some attrs) \<Longrightarrow>
   meta_elements s = attrs # meta_elements rest"
  by (subst meta_elements.simps) simp

lemma dom_parse_metas:
  "parse_metas P s tags = Inr t \<Longrightarrow> k \<in> dom t \<Longrightarrow>
   k \<in> dom tags \<or> (\<exists>attrs \<in> set (meta_elements s). meta_key P attrs = Some k)"
proof (induction "length s" arbitrary: s tags rule: less_induct)
  case less
  show ?case
  proof (cases "find_match meta_re s")
    case None
    with less.prems(1) have "t = tags" by (simp add: parse_metas_no_match)
    with less.prems(2) show ?thesis by simp
  next
    case (Some m)
    obtain j rest cap where m: "m = (j, rest, cap)" by (cases m)
    from Some m find_match_capturing [OF _ patterns_capturing(2)] obtain attrs where
      cap: "cap = Some attrs" by fastforce
    obtain t1 where t1: "parse_meta P attrs tags = Inr t1"
      using parse_meta_returns by blast
    from less.prems(1) Some m cap t1 have rest: "parse_metas P rest t1 = Inr t"
      by (subst (asm) parse_metas.simps) (simp add: then_step_def on_group_def)
    from Some m have shorter: "length rest < length s"
      by (auto dest: find_match_consuming simp: meta_re_consuming)
    from Some m cap have elems: "meta_elements s = attrs # meta_elements rest"
      by (simp add: meta_elements_match)
    from less.hyps [OF shorter rest less.prems(2)]
    have "k \<in> dom t1 \<or> (\<exists>a \<in> set (meta_elements rest). meta_key P a = Some k)" .
    with dom_parse_meta [OF t1, of k] elems show ?thesis by auto
  qed
qed

lemma doFetch_finalUrl:
  "doFetch P timeout u hop stale = Resolved r \<Longrightarrow> url_class P (finalUrl r) None \<noteq> None"
proof (induction P timeout u hop stale rule: doFetch.induct)
  case (1 P timeout fetchUrl redirects stale)
  have le: "\<not> 5 < redirects"
    using "1.prems" by (subst (asm) doFetch.simps) (auto split: if_splits)
  then obtain parsed where parsed: "url_class P fetchUrl None = Some parsed"
    using "1.prems" by (subst (asm) doFetch.simps) (auto split: if_splits option.splits)
  have stale: "stale = None"
    using "1.prems" le parsed by (subst (asm) doFetch.simps) (auto split: option.splits)
  then obtain status hs content where
    ev: "http_request P redirects parsed timeout = Response status hs content"
    using "1.prems" le parsed by (subst (asm) doFetch.simps) (auto split: net_event.splits)
  show ?case
  proof (cases "status \<noteq> 0 \<and> status \<ge> 300 \<and> status < 400 \<and> truthy (header_location hs)")
    case False
    with "1.prems" le parsed stale ev have "finalUrl r = fetchUrl"
      by (subst (asm) doFetch.simps) auto
    with parsed show ?thesis by simp
  next
    case True
    let ?loc = "if startsWith (the (header_location hs)) (js ''http'')
                then Some (the (header_location hs))
                else map_option href (url_class P (the (header_location hs)) (Some fetchUrl))"
    from "1.prems" le parsed stale ev True obtain location where
      loc: "?loc = Some location"
      and next_hop: "doFetch P timeout location (redirects + 1)
                       (late_event P redirects parsed timeout) = Resolved r"
      by (subst (asm) doFetch.simps) (simp split: option.splits)
    from "1.IH" [OF le parsed stale ev True loc next_hop] show ?thesis .
  qed
qed

lemma checkUrl_result_url:
  assumes "checkUrl P u timeout = Resolved result"
  shows "url_class P (result_url result) None \<noteq> None"
proof -
  from assms obtain r where r: "fetchUrl P u timeout = Resolved r"
    and u: "result_url result = finalUrl r"
    by (auto simp: checkUrl_def split: outcome.splits sum.splits)
  from r have "url_class P (finalUrl r) None \<noteq> None"
    unfolding fetchUrl_def by (rule doFetch_finalUrl)
  with u show ?thesis by simp
qed

lemma count_severity_0: "count_severity s issues = 0 \<longleftrightarrow> (\<forall>i \<in> set issues. severity i \<noteq> s)"
  by (auto simp: count_severity_def filter_empty_conv)

lemmas regex_eval = title_re_def meta_re_def prop_re_def content_re_def desc_re1_def desc_re2_def canonical_re1_def canonical_re2_def
     favicon_re_def tag_re_def attr_is_def attr_group_def seq_def lit_def Plus_def LazyPlus_def
     Opt_def not_in_def one_of_def space_def quote_def unquoted_def ci_match_def
     to_upper_ascii_def ms.simps(5) js_def is_white_space_def

lemmas extractor_eval = parseHtml_def then_step_def parse_title_def parse_metas.simps
     parse_meta_def parse_description_def parse_canonical_def parse_favicon_def match_either_def
     on_group_def set_prop_def trim_def decodeHtmlEntities_def startsWith_def

lemma parseHtml_good_page:
  "parseHtml (sample_platform net) good_page =
     Inr [js ''og:title'' \<mapsto> js ''T'', js ''og:description'' \<mapsto> js ''D'',
          js ''og:image'' \<mapsto> js ''http://e/i'']"
  by (simp add: good_page_def extractor_eval regex_eval sample_platform_def to_lower_ascii_def)

lemma parseHtml_empty_page: "parseHtml P [] = Inr Map.empty"
  by (simp add: extractor_eval regex_eval)

lemma parseHtml_title_page:
  "parseHtml P (js ''<title>T</title>'') = Inr [js ''title'' \<mapsto> js ''T'']"
  by (simp add: extractor_eval regex_eval)

text \<open>An empty title element is stored as the empty string.\<close>

lemma parseHtml_empty_title:
  "parseHtml P (js ''<title></title>'') = Inr [js ''title'' \<mapsto> []]"
  by (simp add: extractor_eval regex_eval)

lemma title_page_matches:
  "find_match title_re (js ''<title>T</title>'') = Some (0, [], Some (js ''T''))"
  "find_match meta_re (js ''<title>T</title>'') = None"
  by (simp_all add: regex_eval)

lemma small_page_parts:
  "parseHtml (sample_platform net) small_page = Inr [js ''title'' \<mapsto> js ''T'', js ''a'' \<mapsto> js ''b'']"
  "find_match title_re small_page = Some (0, js ''<meta name=\"a\" content=\"b\">'', Some (js ''T''))"
  "find_match meta_re small_page = Some (16, [], Some (js ''name=\"a\" content=\"b\"''))"
  "find_match meta_re [] = None"
  "meta_key (sample_platform net) (js ''name=\"a\" content=\"b\"'') = Some (js ''a'')"
  by (simp_all add: small_page_def extractor_eval regex_eval meta_key_def sample_platform_def
      to_lower_ascii_def)

lemma meta_elements_small_page: "meta_elements small_page = [js ''name=\"a\" content=\"b\"'']"
  by (simp add: meta_elements_match [OF small_page_parts(3)]
      meta_elements_no_match [OF small_page_parts(4)])

lemma length_js [simp]: "length (js s) = length s"
  by (simp add: js_def)

lemma fetchUrl_serve:
  "fetchUrl (sample_platform (serve page)) (js ''https://example.com/'') t =
     Resolved \<lparr>statusCode = 200, headers = Map.empty, body = page,
                finalUrl = js ''https://example.com/''\<rparr>"
  by (simp add: fetchUrl_def doFetch.simps sample_platform_def sample_URL_next serve_def
      responseHeaders_def)

lemma main_setup_sample:
  "main_setup (sample_platform net) [js ''https://example.com/'', js ''--json'', js ''--ci''] =
     Inr \<lparr>fullUrl = js ''https://example.com/'', jsonOutput = True, ciMode = True,
          timeout_ms = Some 10000\<rparr>"
  "main_setup (sample_platform net) [js ''https://example.com/''] =
     Inr \<lparr>fullUrl = js ''https://example.com/'', jsonOutput = False, ciMode = False,
          timeout_ms = Some 10000\<rparr>"
  by (simp_all add: main_setup_def parseArgs_def set_prop_def truthy_arg_def sample_platform_sel
      sample_URL_def Let_def startsWith_def parseInt_def is_white_space_def digit_val_def js_def)

lemma checkUrl_empty_page:
  "\<exists>issues. checkUrl (sample_platform (serve [])) (js ''https://example.com/'') t =
     Resolved \<lparr>result_tags = Map.empty, result_issues = issues,
                result_url = js ''https://example.com/''\<rparr> \<and>
     (\<exists>i \<in> set issues. severity i = Error)"
proof -
  have "\<exists>rest. validateTags sample_URL Map.empty (js ''https://example.com/'')
          = Inr (check_og_title Map.empty @ rest)"
    by (simp add: validateTags_def check_og_image_def truthy_def)
  then obtain rest where
    v: "validateTags sample_URL Map.empty (js ''https://example.com/'')
          = Inr (check_og_title Map.empty @ rest)" ..
  have "\<exists>i \<in> set (check_og_title Map.empty @ rest). severity i = Error"
    by (simp add: check_og_title_def truthy_def)
  with v show ?thesis
    by (simp add: checkUrl_def fetchUrl_serve parseHtml_empty_page sample_platform_sel)
qed

lemma checkUrl_good_page:
  "\<exists>issues. checkUrl (sample_platform (serve good_page)) (js ''https://example.com/'') t =
     Resolved \<lparr>result_tags = [js ''og:title'' \<mapsto> js ''T'', js ''og:description'' \<mapsto> js ''D'',
                               js ''og:image'' \<mapsto> js ''http://e/i''],
                result_issues = issues, result_url = js ''https://example.com/''\<rparr> \<and>
     (\<forall>i \<in> set issues. severity i \<noteq> Error) \<and> (\<exists>i \<in> set issues. severity i = Warning)"
proof -
  let ?tags = "[js ''og:title'' \<mapsto> js ''T'', js ''og:description'' \<mapsto> js ''D'',
                js ''og:image'' \<mapsto> js ''http://e/i'']"
  have http: "startsWith (js ''http://e/i'') (js ''http'')"
    by (simp add: startsWith_def js_def)
  have v: "validateTags sample_URL ?tags (js ''https://example.com/'') =
             Inr (check_image_dimensions ?tags @ check_image_alt ?tags
                  @ check_og_url ?tags (js ''https://example.com/'') @ check_og_type ?tags
                  @ check_twitter_card ?tags @ check_title ?tags @ check_description ?tags
                  @ check_canonical ?tags (js ''https://example.com/''))"
    using http
    by (simp add: validateTags_def check_og_image_def check_image_absolute_def truthy_def
        check_og_title_def check_og_description_def check_twitter_title_def
        check_twitter_image_def)
  have e: "\<forall>i \<in> set (check_image_dimensions ?tags @ check_image_alt ?tags
                  @ check_og_url ?tags (js ''https://example.com/'') @ check_og_type ?tags
                  @ check_twitter_card ?tags @ check_title ?tags @ check_description ?tags
                  @ check_canonical ?tags (js ''https://example.com/'')). severity i \<noteq> Error"
    by (simp add: check_image_dimensions_def check_image_alt_def check_og_url_def
        check_og_type_def check_twitter_card_def check_title_def check_description_def
        check_canonical_def truthy_def)
  have w: "\<exists>i \<in> set (check_image_dimensions ?tags @ check_image_alt ?tags
                  @ check_og_url ?tags (js ''https://example.com/'') @ check_og_type ?tags
                  @ check_twitter_card ?tags @ check_title ?tags @ check_description ?tags
                  @ check_canonical ?tags (js ''https://example.com/'')). severity i = Warning"
    by (simp add: check_image_dimensions_def truthy_def)
  from v e w show ?thesis
    by (simp add: checkUrl_def fetchUrl_serve parseHtml_good_page sample_platform_sel)
qed

section \<open>Properties of entity decoding\<close>

lemma decodeHtmlEntities_chain:
  "decodeHtmlEntities text = foldl (\<lambda>s (pat, rep). replaceAll pat rep s) text entity_table"
  by (simp add: decodeHtmlEntities_def entity_table_def)

text \<open>
  Claim C7. Decoding the string \<open>&amp;amp;\<close> gives \<open>&amp;\<close>: one level of the
  double-encoded ampersand is resolved, not both.
\<close>

theorem C7_decode_amp_amp:
  "decodeHtmlEntities (js ''&amp;amp;'') = js ''&amp;''"
  by (simp add: decodeHtmlEntities_def js_def startsWith_def)

text \<open>
  Claim C8, as stated: for every supported entity, decoding its double encoding gives the
  entity itself and not its literal character. This fails for \<open>&amp;lt;\<close>: the first
  replacement of the chain turns it into \<open>&lt;\<close>, which the second one turns into \<open><\<close>.
\<close>

theorem C8_double_encoded_lt_counterexample:
  "(js ''&lt;'', js ''<'') \<in> set entity_table \<and>
   decodeHtmlEntities (double_encoded (js ''&lt;'')) = js ''<'' \<and>
   decodeHtmlEntities (double_encoded (js ''&lt;'')) \<noteq> js ''&lt;''"
  by (simp add: entity_table_def decodeHtmlEntities_def double_encoded_def js_def
      startsWith_def)

text \<open>
  Claim C8, amended: only the double-encoded ampersand is decoded by one level. For every
  other supported entity the double encoding is resolved completely, to the literal
  character, because \<open>&amp;\<close> is replaced first and the later replacements read its output.
\<close>

theorem C8_double_encoded_decoding:
  "\<forall>(entity, literal) \<in> set entity_table.
     decodeHtmlEntities (double_encoded entity) =
       (if entity = js ''&amp;'' then js ''&amp;'' else literal)"
  by (simp add: entity_table_def decodeHtmlEntities_def double_encoded_def js_def
      startsWith_def)

theorem C8_double_encoded_decoding_witness:
  "(js ''&gt;'', js ''>'') \<in> set entity_table \<and>
   decodeHtmlEntities (js ''&amp;gt;'') = js ''>''"
proof -
  have mem: "(js ''&gt;'', js ''>'') \<in> set entity_table"
    by (simp add: entity_table_def)
  have ne: "js ''&gt;'' \<noteq> js ''&amp;''"
    by (simp add: js_def)
  have de: "double_encoded (js ''&gt;'') = js ''&amp;gt;''"
    by (simp add: double_encoded_def js_def)
  from C8_double_encoded_decoding mem
  have "decodeHtmlEntities (double_encoded (js ''&gt;'')) =
          (if js ''&gt;'' = js ''&amp;'' then js ''&amp;'' else js ''>'')"
    by blast
  with ne de mem show ?thesis by simp
qed

section \<open>Properties of the validator\<close>




text \<open>
  Claim C3, as stated: for a map without og:title, the fix of the og:title issue embeds the
  value of \<open>title\<close> whenever that key is present. With \<open>title\<close> present and empty (what
  \<^verbatim>\<open><title></title>\<close> extracts to) the fix holds the placeholder instead, since
  \<^verbatim>\<open>tags['title'] || 'Your Page Title'\<close> falls through on the empty string.
\<close>

theorem C3_title_empty_counterexample:
  "[js ''title'' \<mapsto> []] (js ''og:title'') = None \<and>
   [js ''title'' \<mapsto> []] (js ''title'') = Some [] \<and>
   js ''<meta property=\"og:title\" content=\"'' @ [] @ js ''\" />''
     \<noteq> js ''<meta property=\"og:title\" content=\"Your Page Title\" />'' \<and>
   map_sum id (map fix' \<circ> issues_for (js ''og:title''))
     (validateTags sample_URL [js ''title'' \<mapsto> []] (js ''https://example.com/page''))
   = Inr [js ''<meta property=\"og:title\" content=\"Your Page Title\" />'']"
  by (simp add: validateTags_def check_og_image_def truthy_def issues_for_def
      check_og_title_def check_og_description_def check_og_url_def check_og_type_def
      check_twitter_card_def check_twitter_title_def check_twitter_image_def check_title_def
      check_description_def check_canonical_def or_else_def js_def)

text \<open>
  Claim C3, amended: for every map lacking the key og:title, the issues returned contain
  exactly one issue with tag og:title; its severity is error and its fix embeds the value of
  \<open>title\<close> when that key is present and not empty, otherwise the placeholder
  \<open>Your Page Title\<close>.
\<close>

theorem C3_missing_og_title:
  assumes "tags (js ''og:title'') = None"
    and "validateTags newURL tags url = Inr issues"
  shows "\<exists>i. issues_for (js ''og:title'') issues = [i] \<and> severity i = Error \<and>
           fix' i = js ''<meta property=\"og:title\" content=\"''
                    @ (case tags (js ''title'') of
                         None \<Rightarrow> js ''Your Page Title''
                       | Some t \<Rightarrow> if t \<noteq> [] then t else js ''Your Page Title'')
                    @ js ''\" />''"
  using assms(1) issues_for_og_title [OF assms(2)]
  by (simp add: check_og_title_def truthy_def or_else_def)

theorem C3_missing_og_title_witness:
  "[js ''title'' \<mapsto> js ''Hello''] (js ''og:title'') = None \<and>
   (\<exists>issues. validateTags sample_URL [js ''title'' \<mapsto> js ''Hello''] (js ''https://example.com/page'')
        = Inr issues \<and>
      (\<exists>i. issues_for (js ''og:title'') issues = [i] \<and> severity i = Error \<and>
           fix' i = js ''<meta property=\"og:title\" content=\"Hello\" />''))"
proof -
  let ?tags = "[js ''title'' \<mapsto> js ''Hello'']"
  have none: "?tags (js ''og:title'') = None" by simp
  have "\<exists>issues. validateTags sample_URL ?tags (js ''https://example.com/page'') = Inr issues"
    by (simp add: validateTags_returns_iff truthy_def)
  then obtain issues where
    ret: "validateTags sample_URL ?tags (js ''https://example.com/page'') = Inr issues" ..
  from C3_missing_og_title [OF none ret]
  have "\<exists>i. issues_for (js ''og:title'') issues = [i] \<and> severity i = Error \<and>
           fix' i = js ''<meta property=\"og:title\" content=\"Hello\" />''"
    by (simp add: js_def)
  with none ret show ?thesis by blast
qed




text \<open>
  Claim C6. With og:image \<open>/local.png\<close> on the page \<open>https://example.com/page\<close>, the
  validator returns an og:image issue of severity error whose fix holds the absolute URL
  \<open>https://example.com/local.png\<close>. The resolution is the platform's: the hypotheses say
  that \<^verbatim>\<open>new URL('/local.png', 'https://example.com/page')\<close> prints as that URL, as the
  URL standard has it.
\<close>

theorem C6_relative_og_image:
  assumes "tags (js ''og:image'') = Some (js ''/local.png'')"
    and "newURL (js ''/local.png'') (Some (js ''https://example.com/page'')) = Some u"
    and "href u = js ''https://example.com/local.png''"
  shows "\<exists>issues. validateTags newURL tags (js ''https://example.com/page'') = Inr issues \<and>
           issues_with (js ''og:image'') Error issues =
             [\<lparr>tag = js ''og:image'',
               problem = js ''og:image should be an absolute URL (starting with https://). Relative URLs won't work.'',
               fix' = js ''<meta property=\"og:image\" content=\"https://example.com/local.png\" />'',
               severity = Error\<rparr>]"
proof -
  let ?url = "js ''https://example.com/page''"
  let ?i = "\<lparr>tag = js ''og:image'',
               problem = js ''og:image should be an absolute URL (starting with https://). Relative URLs won't work.'',
               fix' = js ''<meta property=\"og:image\" content=\"https://example.com/local.png\" />'',
               severity = Error\<rparr>"
  have tr: "truthy (tags (js ''og:image''))"
    using assms(1) by (simp add: truthy_def)
  have nohttp: "\<not> startsWith (js ''/local.png'') (js ''http'')"
    by (simp add: startsWith_def js_def)
  have "js ''<meta property=\"og:image\" content=\"'' @ js ''https://example.com/local.png''
          @ js ''\" />''
        = js ''<meta property=\"og:image\" content=\"https://example.com/local.png\" />''"
    by (simp add: js_def)
  then have a: "check_image_absolute newURL (the (tags (js ''og:image''))) ?url = Inr [?i]"
    using assms nohttp by (simp add: check_image_absolute_def)
  have "\<exists>issues. validateTags newURL tags ?url = Inr issues"
    using assms(1,2) by (simp add: validateTags_returns_iff)
  then obtain issues where r: "validateTags newURL tags ?url = Inr issues" ..
  from og_image_errors [OF tr r a] r show ?thesis by blast
qed

theorem C6_relative_og_image_witness:
  "\<exists>u. sample_URL (js ''/local.png'') (Some (js ''https://example.com/page'')) = Some u \<and>
       href u = js ''https://example.com/local.png'' \<and>
       (\<exists>issues. validateTags sample_URL [js ''og:image'' \<mapsto> js ''/local.png'']
                    (js ''https://example.com/page'') = Inr issues \<and>
           issues_with (js ''og:image'') Error issues =
             [\<lparr>tag = js ''og:image'',
               problem = js ''og:image should be an absolute URL (starting with https://). Relative URLs won't work.'',
               fix' = js ''<meta property=\"og:image\" content=\"https://example.com/local.png\" />'',
               severity = Error\<rparr>])"
proof -
  let ?u = "\<lparr>href = js ''https://example.com/local.png'', protocol = js ''https:'',
             hostname = js ''example.com'', port = [], pathname = js ''/local.png'',
             search = []\<rparr>"
  have s: "sample_URL (js ''/local.png'') (Some (js ''https://example.com/page'')) = Some ?u"
    by (simp add: sample_URL_def startsWith_def js_def)
  have h: "href ?u = js ''https://example.com/local.png''" by simp
  have t: "[js ''og:image'' \<mapsto> js ''/local.png''] (js ''og:image'') = Some (js ''/local.png'')"
    by simp
  from C6_relative_og_image
         [where tags = "[js ''og:image'' \<mapsto> js ''/local.png'']" and newURL = sample_URL
            and u = ?u, OF t s h] s h
  show ?thesis by blast
qed

section \<open>Properties of the fetcher\<close>

text \<open>
  Claim C5, as stated: a chain of 5 or fewer redirects followed by a 200 response succeeds.
  It need not: a redirected request stays open with its handlers on the promise, and when its
  timeout fires before the later requests are answered the fetch fails with
  \<open>Request timed out\<close>, although every hop was answered.
\<close>

theorem C5_late_timeout_counterexample:
  "redirect_chain impatient_platform (Some 10000) 0
     (js ''https://example.com/'' # replicate 5 (js ''https://example.com/next'')) \<and>
   answers_200 impatient_platform (Some 10000) 5
     (js ''https://example.com/next'') [] (js ''<title>Done</title>'') \<and>
   fetchUrl impatient_platform (js ''https://example.com/'') (Some 10000)
     = Rejected RequestTimedOut \<and>
   message RequestTimedOut = js ''Request timed out''"
proof -
  let ?start = "js ''https://example.com/''" and ?u = "js ''https://example.com/next''"
  have five: "replicate 5 ?u = [?u, ?u, ?u, ?u, ?u]"
    by (simp add: numeral_eq_Suc)
  have c: "redirect_chain impatient_platform (Some 10000) 0 (?start # replicate 5 ?u)"
    unfolding five by (simp add: redirect_to_sample)
  have a: "answers_200 impatient_platform (Some 10000) 5 ?u [] (js ''<title>Done</title>'')"
    by (simp add: answers_200_def impatient_platform_sel sample_URL_next
        redirect_five_times_def)
  have "doFetch impatient_platform (Some 10000) ?start 0 None =
          doFetch impatient_platform (Some 10000) ?u 1 (Some LateTimeout)"
    by (simp add: doFetch_redirect redirect_to_sample late_at_def impatient_platform_sel
        sample_URL_next)
  also have "\<dots> = Rejected RequestTimedOut"
    by (simp add: doFetch_stale impatient_platform_sel sample_URL_next)
  finally have "fetchUrl impatient_platform ?start (Some 10000) = Rejected RequestTimedOut"
    by (simp add: fetchUrl_def)
  with c a show ?thesis by simp
qed

text \<open>
  Claim C5, amended. The redirect cap is 5 hops, as long as no redirected request settles the
  promise with a late timeout or error: then a chain of 6 redirects (7 URLs, each redirecting
  to the next) rejects the fetch with \<open>Too many redirects\<close>, and a chain of at most 5
  redirects whose last URL answers with a 200 response resolves, with that last URL as
  \<open>finalUrl\<close>. The late event of the sixth redirect cannot come before the cap, so the
  condition is on the requests before the last of the first six URLs.
\<close>

theorem C5_redirect_cap:
  assumes "redirect_chain P timeout 0 us" and "us \<noteq> []"
    and "quiet_hops P timeout 0 (butlast (take 6 us))"
  shows "(length us = 7 \<longrightarrow>
            fetchUrl P (hd us) timeout = Rejected TooManyRedirects \<and>
            message TooManyRedirects = js ''Too many redirects'')
       \<and> (length us \<le> 6 \<and> answers_200 P timeout (length us - 1) (last us) hs content \<longrightarrow>
            fetchUrl P (hd us) timeout =
              Resolved \<lparr>statusCode = 200, headers = responseHeaders P hs,
                         body = content, finalUrl = last us\<rparr>)"
proof (cases us)
  case Nil
  with assms(2) show ?thesis by simp
next
  case (Cons u rest)
  show ?thesis
  proof (cases rest)
    case Nil
    with Cons have us: "us = [u]" by simp
    have "doFetch P timeout u 0 None =
            Resolved \<lparr>statusCode = 200, headers = responseHeaders P hs,
                       body = content, finalUrl = u\<rparr>"
      if "answers_200 P timeout 0 u hs content"
      using that by (rule doFetch_200) simp
    then show ?thesis
      unfolding us fetchUrl_def by simp
  next
    case (Cons v ws)
    with \<open>us = u # rest\<close> have us: "us = u # v # ws" by simp
    let ?R = "u # butlast (v # ws)"
    define z where "z = last (v # ws)"
    define y where "y = last ?R"
    define n where "n = length ws"
    have lenus: "length us = n + 2" and lastus: "last us = z" and hdus: "hd us = u"
      using us by (simp_all add: z_def n_def)
    have R: "butlast us = ?R"
      using us by simp
    have bl: "length (butlast ?R) = n"
      by (simp add: n_def)
    have split: "butlast ?R @ [y] = ?R"
      unfolding y_def by (rule append_butlast_last_id) simp
    have chain: "redirect_chain P timeout 0 (u # v # ws)"
      using assms(1) us by simp
    have step: "doFetch P timeout u 0 None =
                  doFetch P timeout z (n + 1) (late_at P timeout n y)"
      if "quiet_hops P timeout 0 (butlast ?R)" and "n \<le> 5"
      using doFetch_chain [OF chain that(1)] that(2) unfolding z_def y_def n_def by simp
    have seven: "fetchUrl P (hd us) timeout = Rejected TooManyRedirects" if "length us = 7"
    proof -
      from that lenus have n: "n = 5" by simp
      have t: "take 6 us = butlast us"
        using that by (simp add: butlast_conv_take)
      have q: "quiet_hops P timeout 0 (butlast ?R)"
        using assms(3) unfolding t R .
      from step [OF q] n
      have "doFetch P timeout u 0 None = doFetch P timeout z 6 (late_at P timeout 5 y)"
        by simp
      then show ?thesis
        unfolding hdus fetchUrl_def by (simp add: doFetch_too_many)
    qed
    have fewer: "fetchUrl P (hd us) timeout =
              Resolved \<lparr>statusCode = 200, headers = responseHeaders P hs,
                         body = content, finalUrl = last us\<rparr>"
      if len: "length us \<le> 6"
        and a: "answers_200 P timeout (length us - 1) (last us) hs content"
    proof -
      from len lenus have n: "n \<le> 4" by simp
      have t: "take 6 us = us"
        using len by simp
      have "quiet_hops P timeout 0 ?R"
        using assms(3) unfolding t R .
      then have "quiet_hops P timeout 0 (butlast ?R @ [y])"
        unfolding split .
      then have both: "quiet_hops P timeout 0 (butlast ?R) \<and>
                       quiet_hops P timeout (0 + length (butlast ?R)) [y]"
        unfolding quiet_hops_append .
      from both have q: "quiet_hops P timeout 0 (butlast ?R)"
        by (rule conjunct1)
      from both have "quiet_hops P timeout (0 + length (butlast ?R)) [y]"
        by (rule conjunct2)
      then have l: "late_at P timeout n y = None"
        unfolding bl by simp
      from a have a': "answers_200 P timeout (n + 1) z hs content"
        unfolding lenus lastus by simp
      from step [OF q] n l
      have "doFetch P timeout u 0 None = doFetch P timeout z (n + 1) None"
        by simp
      also from n have "n + 1 \<le> 5" by simp
      with a' have "doFetch P timeout z (n + 1) None =
                      Resolved \<lparr>statusCode = 200, headers = responseHeaders P hs,
                                 body = content, finalUrl = z\<rparr>"
        by (rule doFetch_200)
      finally show ?thesis
        unfolding hdus lastus fetchUrl_def .
    qed
    from seven fewer show ?thesis by simp
  qed
qed

theorem C5_redirect_cap_witness:
  "redirect_chain (sample_platform redirect_forever) (Some 10000) 0
     (js ''https://example.com/'' # replicate 6 (js ''https://example.com/next'')) \<and>
   quiet_hops (sample_platform redirect_forever) (Some 10000) 0
     (butlast (take 6 (js ''https://example.com/'' # replicate 6 (js ''https://example.com/next'')))) \<and>
   fetchUrl (sample_platform redirect_forever) (js ''https://example.com/'') (Some 10000)
     = Rejected TooManyRedirects \<and>
   redirect_chain (sample_platform redirect_five_times) (Some 10000) 0
     (js ''https://example.com/'' # replicate 5 (js ''https://example.com/next'')) \<and>
   quiet_hops (sample_platform redirect_five_times) (Some 10000) 0
     (butlast (take 6 (js ''https://example.com/'' # replicate 5 (js ''https://example.com/next'')))) \<and>
   answers_200 (sample_platform redirect_five_times) (Some 10000) 5
     (js ''https://example.com/next'') [] (js ''<title>Done</title>'') \<and>
   fetchUrl (sample_platform redirect_five_times) (js ''https://example.com/'') (Some 10000)
     = Resolved \<lparr>statusCode = 200, headers = Map.empty, body = js ''<title>Done</title>'',
                  finalUrl = js ''https://example.com/next''\<rparr>"
proof -
  let ?start = "js ''https://example.com/''" and ?u = "js ''https://example.com/next''"
  let ?P = "sample_platform redirect_forever" and ?Q = "sample_platform redirect_five_times"
  have six: "replicate 6 ?u = [?u, ?u, ?u, ?u, ?u, ?u]"
    and five: "replicate 5 ?u = [?u, ?u, ?u, ?u, ?u]"
    by (simp_all add: numeral_eq_Suc)
  have c1: "redirect_chain ?P (Some 10000) 0 (?start # replicate 6 ?u)"
    unfolding six by (simp add: redirect_to_sample)
  have c2: "redirect_chain ?Q (Some 10000) 0 (?start # replicate 5 ?u)"
    unfolding five by (simp add: redirect_to_sample)
  have q1: "quiet_hops ?P (Some 10000) 0 (butlast (take 6 (?start # replicate 6 ?u)))"
    by (rule quiet_hops_sample)
  have q2: "quiet_hops ?Q (Some 10000) 0 (butlast (take 6 (?start # replicate 5 ?u)))"
    by (rule quiet_hops_sample)
  have a: "answers_200 ?Q (Some 10000) 5 ?u [] (js ''<title>Done</title>'')"
    by (simp add: answers_200_def sample_platform_sel sample_URL_next redirect_five_times_def)
  have r1: "fetchUrl ?P ?start (Some 10000) = Rejected TooManyRedirects"
    using C5_redirect_cap [OF c1 _ q1, of "[]" "[]"] by simp
  have r2: "fetchUrl ?Q ?start (Some 10000)
     = Resolved \<lparr>statusCode = 200, headers = Map.empty, body = js ''<title>Done</title>'',
                  finalUrl = ?u\<rparr>"
    using C5_redirect_cap [OF c2 _ q2, of "[]" "js ''<title>Done</title>''"] a
    by (simp add: responseHeaders_def)
  from c1 q1 r1 c2 q2 a r2 show ?thesis by (intro conjI)
qed

section \<open>Properties of the extractor\<close>

text \<open>
  Claim C9. \<open>parseHtml\<close> returns a map for every input and never throws: the loop over the
  \<^verbatim>\<open><meta>\<close> elements ends, and group 1 is defined in every match. A key is in the map only
  if an element that produces this key was matched: one of the \<^verbatim>\<open><meta>\<close> elements of the
  page with a \<^verbatim>\<open>content\<close> attribute and this key as its lower-cased \<^verbatim>\<open>property\<close> or
  \<^verbatim>\<open>name\<close>, or the \<^verbatim>\<open><title>\<close>, \<^verbatim>\<open><meta>\<close> or \<^verbatim>\<open><link>\<close> pattern of that key; a tag
  that is absent or not matched leaves its key missing.
\<close>

theorem C9_parseHtml_total:
  "\<exists>tags. parseHtml P html = Inr tags \<and>
     (\<forall>k \<in> dom tags.
        (\<exists>attrs \<in> set (meta_elements html). meta_key P attrs = Some k)
      \<or> k = js ''title'' \<and> find_match title_re html \<noteq> None
      \<or> k = js ''description'' \<and> match_either desc_re1 desc_re2 html \<noteq> None
      \<or> k = js ''canonical'' \<and> match_either canonical_re1 canonical_re2 html \<noteq> None
      \<or> k = js ''favicon'' \<and> find_match favicon_re html \<noteq> None)"
proof -
  obtain t1 where t1: "parse_title html Map.empty = Inr t1"
    using parse_title_returns by blast
  obtain t2 where t2: "parse_metas P html t1 = Inr t2"
    using parse_metas_returns by blast
  obtain t3 where t3: "parse_description html t2 = Inr t3"
    using parse_description_returns by blast
  let ?tags = "parse_favicon html (parse_canonical html t3)"
  have ret: "parseHtml P html = Inr ?tags"
    using t1 t2 t3 by (simp add: parseHtml_def then_step_def)
  have "(\<exists>attrs \<in> set (meta_elements html). meta_key P attrs = Some k)
      \<or> k = js ''title'' \<and> find_match title_re html \<noteq> None
      \<or> k = js ''description'' \<and> match_either desc_re1 desc_re2 html \<noteq> None
      \<or> k = js ''canonical'' \<and> match_either canonical_re1 canonical_re2 html \<noteq> None
      \<or> k = js ''favicon'' \<and> find_match favicon_re html \<noteq> None"
    if k: "k \<in> dom ?tags" for k
  proof -
    from dom_parse_favicon [OF k]
    have "k \<in> dom (parse_canonical html t3)
          \<or> k = js ''favicon'' \<and> find_match favicon_re html \<noteq> None" .
    moreover have "k \<in> dom t3
          \<or> k = js ''canonical'' \<and> match_either canonical_re1 canonical_re2 html \<noteq> None"
      if "k \<in> dom (parse_canonical html t3)"
      using that by (rule dom_parse_canonical)
    moreover have "k \<in> dom t2
          \<or> k = js ''description'' \<and> match_either desc_re1 desc_re2 html \<noteq> None"
      if "k \<in> dom t3"
      using t3 that by (rule dom_parse_description)
    moreover have "k \<in> dom t1
          \<or> (\<exists>attrs \<in> set (meta_elements html). meta_key P attrs = Some k)"
      if "k \<in> dom t2"
      using t2 that by (rule dom_parse_metas)
    moreover have "k = js ''title'' \<and> find_match title_re html \<noteq> None"
      if "k \<in> dom t1"
      using dom_parse_title [OF t1 that] by simp
    ultimately show ?thesis by blast
  qed
  with ret show ?thesis by blast
qed

theorem C9_parseHtml_total_witness:
  "\<exists>tags. parseHtml (sample_platform (serve [])) small_page = Inr tags \<and>
      tags = [js ''title'' \<mapsto> js ''T'', js ''a'' \<mapsto> js ''b''] \<and>
      meta_elements small_page = [js ''name=\"a\" content=\"b\"''] \<and>
      meta_key (sample_platform (serve [])) (js ''name=\"a\" content=\"b\"'') = Some (js ''a'') \<and>
      find_match title_re small_page \<noteq> None \<and>
      (\<forall>k \<in> dom tags.
        (\<exists>attrs \<in> set (meta_elements small_page).
            meta_key (sample_platform (serve [])) attrs = Some k)
      \<or> k = js ''title'' \<and> find_match title_re small_page \<noteq> None
      \<or> k = js ''description'' \<and> match_either desc_re1 desc_re2 small_page \<noteq> None
      \<or> k = js ''canonical'' \<and> match_either canonical_re1 canonical_re2 small_page \<noteq> None
      \<or> k = js ''favicon'' \<and> find_match favicon_re small_page \<noteq> None)"
proof -
  let ?P = "sample_platform (serve [])"
  from C9_parseHtml_total [of ?P small_page]
  obtain tags where ret: "parseHtml ?P small_page = Inr tags"
    and keys: "\<forall>k \<in> dom tags.
        (\<exists>attrs \<in> set (meta_elements small_page). meta_key ?P attrs = Some k)
      \<or> k = js ''title'' \<and> find_match title_re small_page \<noteq> None
      \<or> k = js ''description'' \<and> match_either desc_re1 desc_re2 small_page \<noteq> None
      \<or> k = js ''canonical'' \<and> match_either canonical_re1 canonical_re2 small_page \<noteq> None
      \<or> k = js ''favicon'' \<and> find_match favicon_re small_page \<noteq> None"
    by blast
  from ret have tags: "tags = [js ''title'' \<mapsto> js ''T'', js ''a'' \<mapsto> js ''b'']"
    by (simp add: small_page_parts(1))
  have title: "find_match title_re small_page \<noteq> None"
    by (simp add: small_page_parts(2))
  from ret tags meta_elements_small_page small_page_parts(5) [of "serve []"] title keys
  show ?thesis
    by (intro exI [of _ tags] conjI)
qed

section \<open>Properties of the command line\<close>

text \<open>
  Claim C2. For every run that reaches the report, the field \<open>valid\<close> of the JSON output is
  true exactly when no issue has severity error, and with \<^verbatim>\<open>--ci\<close> the exit code is 1 when
  some issue has severity error and 0 when none has, whatever warnings and info issues there
  are. Without \<^verbatim>\<open>--ci\<close> such a run exits with 0.
\<close>

theorem C2_validity_and_exit_code:
  assumes "main_setup P argv = Inr s"
    and "checkUrl P (fullUrl s) (timeout_ms s) = Resolved result"
  shows "(jsonOutput s \<longrightarrow>
            (\<exists>r. fst (main P argv) = JsonReport r \<and>
                 report_issues r = result_issues result \<and>
                 (valid r \<longleftrightarrow> (\<forall>i \<in> set (result_issues result). severity i \<noteq> Error))))
       \<and> (ciMode s \<longrightarrow>
            snd (main P argv) =
              (if \<exists>i \<in> set (result_issues result). severity i = Error then 1 else 0))
       \<and> (\<not> ciMode s \<longrightarrow> snd (main P argv) = 0)"
proof -
  have m: "main P argv = report P (jsonOutput s) (ciMode s) result"
    using assms by (simp add: main_def)
  have u: "url_class P (result_url result) None \<noteq> None"
    using assms(2) by (rule checkUrl_result_url)
  show ?thesis
    unfolding m using u
    by (auto simp: report_def count_severity_0 list_ex_iff)
qed

theorem C2_validity_and_exit_code_witness:
  "(\<exists>r. main (sample_platform (serve good_page))
            [js ''https://example.com/'', js ''--json'', js ''--ci''] = (JsonReport r, 0) \<and>
        valid r \<and> (\<exists>i \<in> set (report_issues r). severity i = Warning))
   \<and> (\<exists>r. main (sample_platform (serve []))
            [js ''https://example.com/'', js ''--json'', js ''--ci''] = (JsonReport r, 1) \<and>
        \<not> valid r \<and> (\<exists>i \<in> set (report_issues r). severity i = Error))
   \<and> snd (main (sample_platform (serve [])) [js ''https://example.com/'']) = 0"
proof -
  let ?argv = "[js ''https://example.com/'', js ''--json'', js ''--ci'']"
  let ?s = "\<lparr>fullUrl = js ''https://example.com/'', jsonOutput = True, ciMode = True,
          timeout_ms = Some 10000\<rparr>"
  let ?plain = "\<lparr>fullUrl = js ''https://example.com/'', jsonOutput = False, ciMode = False,
          timeout_ms = Some 10000\<rparr>"
  obtain good where good:
    "checkUrl (sample_platform (serve good_page)) (js ''https://example.com/'') (Some 10000) =
       Resolved \<lparr>result_tags = [js ''og:title'' \<mapsto> js ''T'', js ''og:description'' \<mapsto> js ''D'',
                               js ''og:image'' \<mapsto> js ''http://e/i''],
                result_issues = good, result_url = js ''https://example.com/''\<rparr>"
    and good_e: "\<forall>i \<in> set good. severity i \<noteq> Error"
    and good_w: "\<exists>i \<in> set good. severity i = Warning"
    using checkUrl_good_page [of "Some 10000"] by blast
  obtain bad where bad:
    "checkUrl (sample_platform (serve [])) (js ''https://example.com/'') (Some 10000) =
       Resolved \<lparr>result_tags = Map.empty, result_issues = bad,
                  result_url = js ''https://example.com/''\<rparr>"
    and bad_e: "\<exists>i \<in> set bad. severity i = Error"
    using checkUrl_empty_page [of "Some 10000"] by blast
  have 1: "\<exists>r. main (sample_platform (serve good_page)) ?argv = (JsonReport r, 0) \<and>
        valid r \<and> (\<exists>i \<in> set (report_issues r). severity i = Warning)"
    using C2_validity_and_exit_code [of "sample_platform (serve good_page)" ?argv ?s,
        OF main_setup_sample(1)] good good_e good_w
    by (cases "main (sample_platform (serve good_page)) ?argv") auto
  have 2: "\<exists>r. main (sample_platform (serve [])) ?argv = (JsonReport r, 1) \<and>
        \<not> valid r \<and> (\<exists>i \<in> set (report_issues r). severity i = Error)"
    using C2_validity_and_exit_code [of "sample_platform (serve [])" ?argv ?s,
        OF main_setup_sample(1)] bad bad_e
    by (cases "main (sample_platform (serve [])) ?argv") auto
  have 3: "snd (main (sample_platform (serve [])) [js ''https://example.com/'']) = 0"
    using C2_validity_and_exit_code [of "sample_platform (serve [])"
        "[js ''https://example.com/'']" ?plain, OF main_setup_sample(2)] bad
    by simp
  from 1 2 3 show ?thesis by blast
qed

text \<open>
  Claim C10. A \<^verbatim>\<open>--flag\<close> token without \<open>=\<close> that is followed by a token not starting with
  \<open>-\<close> takes that token as its value. So for \<^verbatim>\<open>["--json", U]\<close> the option \<open>json\<close> is the
  string \<open>U\<close>, no positional URL is recorded, and the run ends with the usage error and exit
  code 1. (The value is stored by the assignment \<^verbatim>\<open>args[key] = value\<close>, see \<open>set_prop\<close>.)
\<close>

theorem C10_flag_consumes_next:
  assumes "\<not> startsWith U (js ''-'')"
  shows "parseArgs [js ''--json'', U] = [js ''json'' \<mapsto> Str U]
       \<and> parseArgs [js ''--json'', U] (js ''_url'') = None
       \<and> main P [js ''--json'', U] = (UsageError, 1)
       \<and> (\<forall>arg rest args positional.
            startsWith arg (js ''--'') \<and> indexOf arg 0x3D = None \<longrightarrow>
            parseArgs_loop (arg # U # rest) args positional =
              parseArgs_loop rest (set_prop args (drop 2 arg) (Str U)) positional)"
proof -
  have dd: "startsWith (js ''--json'') (js ''--'')" "indexOf (js ''--json'') 0x3D = None"
    "drop 2 (js ''--json'') = js ''json''"
    by (simp_all add: startsWith_def js_def)
  have p: "parseArgs [js ''--json'', U] = [js ''json'' \<mapsto> Str U]"
    using assms by (simp add: parseArgs_def dd set_prop_def)
  have u: "parseArgs [js ''--json'', U] (js ''_url'') = None"
    "parseArgs [js ''--json'', U] (js ''help'') = None"
    by (simp_all add: p)
  have "main P [js ''--json'', U] = (UsageError, 1)"
    by (simp add: main_def main_setup_def u truthy_arg_def)
  with p u(1) assms show ?thesis by simp
qed

theorem C10_flag_consumes_next_witness:
  "\<not> startsWith (js ''https://example.com'') (js ''-'') \<and>
   parseArgs [js ''--json'', js ''https://example.com''] (js ''json'')
     = Some (Str (js ''https://example.com'')) \<and>
   parseArgs [js ''--json'', js ''https://example.com''] (js ''_url'') = None \<and>
   main (sample_platform (serve [])) [js ''--json'', js ''https://example.com''] = (UsageError, 1) \<and>
   startsWith (js ''--ci'') (js ''--'') \<and> indexOf (js ''--ci'') 0x3D = None \<and>
   parseArgs_loop [js ''--ci'', js ''https://example.com''] Map.empty [] =
     ([js ''ci'' \<mapsto> Str (js ''https://example.com'')], [])"
proof -
  let ?U = "js ''https://example.com''"
  have h: "\<not> startsWith ?U (js ''-'')"
    by (simp add: startsWith_def js_def)
  have ci: "startsWith (js ''--ci'') (js ''--'')" "indexOf (js ''--ci'') 0x3D = None"
    "drop 2 (js ''--ci'') = js ''ci''"
    by (simp_all add: startsWith_def js_def)
  from C10_flag_consumes_next [OF h, of "sample_platform (serve [])"]
  have p: "parseArgs [js ''--json'', ?U] = [js ''json'' \<mapsto> Str ?U]"
    and u: "parseArgs [js ''--json'', ?U] (js ''_url'') = None"
    and m: "main (sample_platform (serve [])) [js ''--json'', ?U] = (UsageError, 1)"
    and l: "\<forall>arg rest args positional.
            startsWith arg (js ''--'') \<and> indexOf arg 0x3D = None \<longrightarrow>
            parseArgs_loop (arg # ?U # rest) args positional =
              parseArgs_loop rest (set_prop args (drop 2 arg) (Str ?U)) positional"
    by blast+
  from l ci have "parseArgs_loop [js ''--ci'', ?U] Map.empty [] =
      parseArgs_loop [] (set_prop Map.empty (drop 2 (js ''--ci'')) (Str ?U)) []"
    by blast
  then have "parseArgs_loop [js ''--ci'', ?U] Map.empty [] = ([js ''ci'' \<mapsto> Str ?U], [])"
    by (simp add: ci set_prop_def)
  with h p u m ci show ?thesis by simp
qed

end
